theory Spec2Isabelle
  imports Main "HOL-Library.Sublist"
begin

section \<open>Python values, errors and string rendering\<close>

text \<open>
  The builders of \<^verbatim>\<open>command_strings.py\<close> receive a keyword dictionary whose values are
  dynamically typed. The values that matter to the code are \<^verbatim>\<open>None\<close>, booleans, integers,
  strings and objects such as an open text file. An object is described by the two things
  the code observes of it: the value of its \<^verbatim>\<open>name\<close> attribute, when it has one, and the
  text that \<^verbatim>\<open>str()\<close> gives for it. Strings are lists of code points below 256.
\<close>

datatype pyval =
    PNone
  | PBool bool
  | PInt int
  | PStr string
  | PObj "pyval option" string

datatype error =
    KeyError string
  | TypeError
  | AttributeError
  | AssertionError
  | IndexError
  | ValueError
  | FileNotFoundError string
  | OSError string
  | UnmodelledFormat

type_synonym kwargs = "string \<rightharpoonup> pyval"

text \<open>Decimal rendering of integers, as \<^verbatim>\<open>str(n)\<close> does.\<close>

fun str_nat :: "nat \<Rightarrow> string" where
  "str_nat n =
     (if n < 10 then [''0123456789'' ! n]
      else str_nat (n div 10) @ [''0123456789'' ! (n mod 10)])"

declare str_nat.simps [simp del]

definition str_int :: "int \<Rightarrow> string" where
  "str_int i = (if i < 0 then CHR ''-'' # str_nat (nat (- i)) else str_nat (nat i))"

text \<open>\<^verbatim>\<open>str(v)\<close>, which is what an f-string replacement field \<^verbatim>\<open>{v}\<close> inserts.\<close>

fun py_str :: "pyval \<Rightarrow> string" where
  "py_str PNone = ''None''"
| "py_str (PBool b) = (if b then ''True'' else ''False'')"
| "py_str (PInt i) = str_int i"
| "py_str (PStr s) = s"
| "py_str (PObj a r) = r"

text \<open>
  Truth value of a value in a condition. Objects without \<^verbatim>\<open>__bool__\<close> and
  \<^verbatim>\<open>__len__\<close>, such as file handles, are true.
\<close>

fun truthy :: "pyval \<Rightarrow> bool" where
  "truthy PNone = False"
| "truthy (PBool b) = b"
| "truthy (PInt i) = (i \<noteq> 0)"
| "truthy (PStr s) = (s \<noteq> [])"
| "truthy (PObj a r) = True"

text \<open>\<^verbatim>\<open>kwargs.get(k)\<close>: the stored value, \<^verbatim>\<open>None\<close> for a missing key.\<close>

definition dict_get :: "kwargs \<Rightarrow> string \<Rightarrow> pyval" where
  "dict_get kw k = (case kw k of None \<Rightarrow> PNone | Some v \<Rightarrow> v)"

text \<open>\<^verbatim>\<open>kwargs[k]\<close>: raises \<^verbatim>\<open>KeyError\<close> for a missing key.\<close>

definition dict_item :: "kwargs \<Rightarrow> string \<Rightarrow> error + pyval" where
  "dict_item kw k = (case kw k of None \<Rightarrow> Inl (KeyError k) | Some v \<Rightarrow> Inr v)"

section \<open>The path resolution helper\<close>

text \<open>
  \<^verbatim>\<open>
  def name(path):
      if hasattr(path, "name"):
          path = path.name
      return path
  \<close>
\<close>

fun hasattr_name :: "pyval \<Rightarrow> bool" where
  "hasattr_name (PObj (Some v) r) = True"
| "hasattr_name v = False"

fun name :: "pyval \<Rightarrow> pyval" where
  "name (PObj (Some v) r) = v"
| "name v = v"

text \<open>
  A path-like value in the sense of the data model: a plain string, or an object whose
  \<^verbatim>\<open>name\<close> attribute is a string.
\<close>

fun path_like :: "pyval \<Rightarrow> bool" where
  "path_like (PStr s) = True"
| "path_like (PObj (Some (PStr s)) r) = True"
| "path_like v = False"

section \<open>The driver invocation builder\<close>

text \<open>
  The body of \<^verbatim>\<open>cmd_sentieon_driver(bed_key=None, skip_sample_input=False, **kwargs)\<close>,
  as a function of its three parameters. The order of the lookups is the order in which
  the source evaluates them, so the first missing key decides the error.
\<close>

definition cmd_sentieon_driver :: "string option \<Rightarrow> bool \<Rightarrow> kwargs \<Rightarrow> error + string" where
  "cmd_sentieon_driver bed_key skip_sample_input kw =
     (let bed = (case bed_key of
                   None \<Rightarrow> ''''
                 | Some k \<Rightarrow> if dict_get kw k \<noteq> PNone
                             then '' --interval '' @ py_str (name (dict_get kw k))
                             else '''');
          read_filter = (if truthy (dict_get kw ''read-filter'')
                         then '' --read_filter '' @ py_str (dict_get kw ''read-filter'')
                         else '''')
      in case dict_item kw ''cores'' of
           Inl e \<Rightarrow> Inl e
         | Inr cores \<Rightarrow>
             (case dict_item kw ''reference'' of
                Inl e \<Rightarrow> Inl e
              | Inr reference \<Rightarrow>
                  (let cmd = ''sentieon driver -t '' @ py_str cores @ '' -r ''
                               @ py_str (name reference) @ '' '';
                       cmd = cmd @ bed
                   in if \<not> skip_sample_input
                      then (case dict_item kw ''sample_input'' of
                              Inl e \<Rightarrow> Inl e
                            | Inr sample_input \<Rightarrow>
                                Inr (cmd @ '' -i '' @ py_str (name sample_input) @ read_filter))
                      else Inr (cmd @ read_filter))))"

text \<open>
  Binding of the arguments at the call sites. In
  \<^verbatim>\<open>cmd_sentieon_driver(bed_key=b, skip_sample_input=s, **kwargs)\<close> a dictionary that
  itself holds one of the two parameter names gives the parameter two values, which is a
  \<^verbatim>\<open>TypeError\<close>. In \<^verbatim>\<open>cmd_sentieon_driver(bed_key, **kwargs)\<close> only \<^verbatim>\<open>bed_key\<close> can
  clash; a \<^verbatim>\<open>skip_sample_input\<close> entry of the dictionary binds the parameter of that
  name and does not reach the \<^verbatim>\<open>**kwargs\<close> of the callee.
\<close>

definition call_driver_named :: "string option \<Rightarrow> bool \<Rightarrow> kwargs \<Rightarrow> error + string" where
  "call_driver_named bed_key skip_sample_input kw =
     (if kw ''bed_key'' \<noteq> None \<or> kw ''skip_sample_input'' \<noteq> None then Inl TypeError
      else cmd_sentieon_driver bed_key skip_sample_input kw)"

definition call_driver_positional :: "string option \<Rightarrow> kwargs \<Rightarrow> error + string" where
  "call_driver_positional bed_key kw =
     (if kw ''bed_key'' \<noteq> None then Inl TypeError
      else cmd_sentieon_driver bed_key
             (case kw ''skip_sample_input'' of None \<Rightarrow> False | Some v \<Rightarrow> truthy v)
             (kw(''skip_sample_input'' := None)))"

section \<open>Stage builders\<close>

definition cmd_variant_phaser ::
  "string \<Rightarrow> string \<Rightarrow> string \<Rightarrow> string \<Rightarrow> kwargs \<Rightarrow> error + string" where
  "cmd_variant_phaser vcf phased_bed phased_vcf phased_ext kw =
     (case call_driver_named None False kw of
        Inl e \<Rightarrow> Inl e
      | Inr cmd \<Rightarrow>
          Inr (cmd @ '' --algo VariantPhaser -v '' @ vcf @ '' ''
                 @ ''--max_depth ''
                 @ py_str (case kw ''phase_max_depth'' of None \<Rightarrow> PInt 1000 | Some v \<Rightarrow> v)
                 @ '' ''
                 @ ''--out_bed '' @ phased_bed @ '' ''
                 @ ''--out_ext '' @ phased_ext @ '' ''
                 @ phased_vcf @ '' ''))"

text \<open>
  \<^verbatim>\<open>cmd_repeat_model\<close> receives the dictionary itself, not a copy, and assigns to two of
  its keys. The model returns the result together with the dictionary as the caller sees
  it after the call, also when the call raises.
\<close>

definition cmd_repeat_model ::
  "string \<Rightarrow> string \<Rightarrow> kwargs \<Rightarrow> (error + string) \<times> kwargs" where
  "cmd_repeat_model phased_bed phased_ext kw =
     (let kw1 = kw(''phased_bed'' \<mapsto> PStr phased_bed)
      in case call_driver_named (Some ''phased_bed'') False kw1 of
           Inl e \<Rightarrow> (Inl e, kw1)
         | Inr cmd \<Rightarrow>
             (case dict_item kw1 ''tmp_base'' of
                Inl e \<Rightarrow> (Inl e, kw1)
              | Inr tmp_base \<Rightarrow>
                  (let repeat_model = py_str tmp_base @ ''/out_repeat.model'';
                       kw2 = kw1(''repeat_model'' \<mapsto> PStr repeat_model)
                   in (Inr (cmd @ '' --read_filter PhasedReadFilter,phased_vcf='' @ phased_ext
                              @ '',phase_select=tag ''
                              @ ''--algo RepeatModel --phased --min_map_qual 1 ''
                              @ ''--min_group_count 10000 ''
                              @ ''--read_flag_mask drop=supplementary --repeat_extension 5 ''
                              @ ''--max_repeat_unit_size 2 --min_repeat_count 6 ''
                              @ repeat_model),
                       kw2))))"

definition cmd_model_apply :: "string \<Rightarrow> string \<Rightarrow> string \<Rightarrow> kwargs \<Rightarrow> error + string" where
  "cmd_model_apply model inp_vcf out_vcf kw =
     (case call_driver_named None True kw of
        Inl e \<Rightarrow> Inl e
      | Inr cmd \<Rightarrow>
          Inr (cmd @ ''--algo DNAModelApply --model '' @ model @ '' -v '' @ inp_vcf
                 @ '' '' @ out_vcf))"

text \<open>
  Printf-style formatting \<^verbatim>\<open>patt % args\<close> with a tuple of arguments, for the conversions
  \<^verbatim>\<open>%s\<close>, \<^verbatim>\<open>%d\<close>, \<^verbatim>\<open>%i\<close>, \<^verbatim>\<open>%u\<close> and \<^verbatim>\<open>%%\<close> without flags, width or precision. A
  pattern that ends in a lone \<^verbatim>\<open>%\<close> is a \<^verbatim>\<open>ValueError\<close>; too few or too many arguments,
  or a non-number for an integer conversion, is a \<^verbatim>\<open>TypeError\<close>. Any other conversion
  specification is outside this model and is reported as \<open>UnmodelledFormat\<close>.
\<close>

fun py_format :: "string \<Rightarrow> pyval list \<Rightarrow> error + string" where
  "py_format [] args = (if args = [] then Inr [] else Inl TypeError)"
| "py_format (c # cs) args =
     (if c \<noteq> CHR ''%'' then
        (case py_format cs args of Inl e \<Rightarrow> Inl e | Inr r \<Rightarrow> Inr (c # r))
      else
        (case cs of
           [] \<Rightarrow> Inl ValueError
         | d # ds \<Rightarrow>
             if d = CHR ''%'' then
               (case py_format ds args of Inl e \<Rightarrow> Inl e | Inr r \<Rightarrow> Inr (CHR ''%'' # r))
             else if d = CHR ''s'' then
               (case args of
                  [] \<Rightarrow> Inl TypeError
                | a # as \<Rightarrow>
                    (case py_format ds as of Inl e \<Rightarrow> Inl e | Inr r \<Rightarrow> Inr (py_str a @ r)))
             else if d = CHR ''d'' \<or> d = CHR ''i'' \<or> d = CHR ''u'' then
               (case args of
                  [] \<Rightarrow> Inl TypeError
                | a # as \<Rightarrow>
                    (case a of
                       PInt i \<Rightarrow>
                         (case py_format ds as of
                            Inl e \<Rightarrow> Inl e | Inr r \<Rightarrow> Inr (str_int i @ r))
                     | PBool b \<Rightarrow>
                         (case py_format ds as of
                            Inl e \<Rightarrow> Inl e | Inr r \<Rightarrow> Inr ((if b then ''1'' else ''0'') @ r))
                     | _ \<Rightarrow> Inl TypeError))
             else Inl UnmodelledFormat))"

text \<open>
  \<^verbatim>\<open>assert tech in ("HiFi", "ONT")\<close> is modelled with assertions enabled, the
  interpreter's default.
\<close>

definition cmd_pyexec_vcf_mod_haploid_patch ::
  "string \<Rightarrow> string \<Rightarrow> string \<Rightarrow> string \<Rightarrow> pyval \<Rightarrow> kwargs \<Rightarrow> error + string" where
  "cmd_pyexec_vcf_mod_haploid_patch hap1_patch hap2_patch hap_patt tech phased_vcf kw =
     (if \<not> (tech = ''HiFi'' \<or> tech = ''ONT'') then Inl AssertionError
      else
        (case dict_item kw ''vcf_mod_py'' of Inl e \<Rightarrow> Inl e | Inr vcf_mod_py \<Rightarrow>
        (case dict_item kw ''cores'' of Inl e \<Rightarrow> Inl e | Inr cores \<Rightarrow>
        (let cmd = ''sentieon pyexec '' @ py_str vcf_mod_py @ '' -t '' @ py_str cores @ '' ''
                     @ ''haploid_patch ''
                     @ ''--patch1 '' @ hap1_patch @ '' --patch2 '' @ hap2_patch;
             branch =
               (if tech = ''HiFi'' then
                  (case py_format hap_patt [PInt 1, PStr ''nohp_''] of Inl e \<Rightarrow> Inl e | Inr h1 \<Rightarrow>
                  (case py_format hap_patt [PInt 2, PStr ''nohp_''] of Inl e \<Rightarrow> Inl e | Inr h2 \<Rightarrow>
                   Inr (cmd @ '' --hap1 '' @ h1 @ '' --hap2 '' @ h2)))
                else Inr (cmd @ '' --phased '' @ py_str phased_vcf))
         in (case branch of Inl e \<Rightarrow> Inl e | Inr cmd \<Rightarrow>
            (case py_format hap_patt [PInt 1, PStr []] of Inl e \<Rightarrow> Inl e | Inr p1 \<Rightarrow>
            (case py_format hap_patt [PInt 2, PStr []] of Inl e \<Rightarrow> Inl e | Inr p2 \<Rightarrow>
             Inr (cmd @ '' --hap1_hp '' @ p1 @ '' --hap2_hp '' @ p2))))))))"

definition cmd_pyexec_vcf_mod_patch ::
  "string \<Rightarrow> string \<Rightarrow> string \<Rightarrow> kwargs \<Rightarrow> error + string" where
  "cmd_pyexec_vcf_mod_patch out_vcf vcf vcf_hp kw =
     (case dict_item kw ''vcf_mod_py'' of Inl e \<Rightarrow> Inl e | Inr vcf_mod_py \<Rightarrow>
     (case dict_item kw ''cores'' of Inl e \<Rightarrow> Inl e | Inr cores \<Rightarrow>
      Inr (''sentieon pyexec '' @ py_str vcf_mod_py @ '' -t '' @ py_str cores @ '' ''
             @ ''patch --vcf '' @ vcf @ '' --vcf_hp '' @ vcf_hp @ '' '' @ out_vcf)))"

text \<open>
  \<^verbatim>\<open>s.replace(old, new)\<close>: every occurrence of \<open>old\<close>, found from the left without
  overlaps, is replaced; an empty \<open>old\<close> matches before every character and at the end.
\<close>

function py_replace :: "string \<Rightarrow> string \<Rightarrow> string \<Rightarrow> string" where
  "py_replace old new [] = (if old = [] then new else [])"
| "py_replace old new (c # cs) =
     (if old = [] then new @ c # py_replace old new cs
      else if prefix old (c # cs) then new @ py_replace old new (drop (length old - 1) cs)
      else c # py_replace old new cs)"
  by pat_completeness auto
termination
  by (relation "measure (\<lambda>(old, new, s). length s)") auto

text \<open>
  The specification's description of the converted path, for comparison with what the
  source computes: the path with its trailing suffix \<open>old\<close> replaced by \<open>new\<close>.
\<close>

definition spec_replace_suffix :: "string \<Rightarrow> string \<Rightarrow> string \<Rightarrow> string" where
  "spec_replace_suffix old new s =
     (if suffix old s then take (length s - length old) s @ new else s)"

definition cmd_pyexec_gvcf_combine :: "string \<Rightarrow> string \<Rightarrow> kwargs \<Rightarrow> error + string" where
  "cmd_pyexec_gvcf_combine gvcf out_vcf kw =
     (case dict_item kw ''gvcf_combine_py'' of Inl e \<Rightarrow> Inl e | Inr gvcf_combine_py \<Rightarrow>
     (case dict_item kw ''cores'' of Inl e \<Rightarrow> Inl e | Inr cores \<Rightarrow>
      Inr (''sentieon pyexec '' @ py_str gvcf_combine_py @ '' -t '' @ py_str cores @ '' ''
             @ gvcf @ '' '' @ out_vcf @ '' -''
             @ '' | sentieon util vcfconvert - ''
             @ py_replace ''.vcf.gz'' ''.g.vcf.gz'' out_vcf)))"

definition cmd_pyexec_vcf_mod_merge ::
  "string \<Rightarrow> string \<Rightarrow> string \<Rightarrow> string \<Rightarrow> string \<Rightarrow> string \<Rightarrow> kwargs \<Rightarrow> error + string" where
  "cmd_pyexec_vcf_mod_merge hap1_vcf hap2_vcf unphased_vcf phased_vcf phased_bed out_vcf kw =
     (case dict_item kw ''vcf_mod_py'' of Inl e \<Rightarrow> Inl e | Inr vcf_mod_py \<Rightarrow>
     (case dict_item kw ''cores'' of Inl e \<Rightarrow> Inl e | Inr cores \<Rightarrow>
      Inr (''sentieon pyexec '' @ py_str vcf_mod_py @ '' -t '' @ py_str cores @ '' ''
             @ ''merge --hap1 '' @ hap1_vcf @ '' --hap2 '' @ hap2_vcf
             @ '' --unphased '' @ unphased_vcf @ '' ''
             @ ''--phased '' @ phased_vcf @ '' --bed '' @ phased_bed @ '' '' @ out_vcf)))"

text \<open>The attribute access \<^verbatim>\<open>v.name\<close>, which raises when there is no such attribute.\<close>

fun getattr_name :: "pyval \<Rightarrow> error + pyval" where
  "getattr_name (PObj (Some v) r) = Inr v"
| "getattr_name v = Inl AttributeError"

definition cmd_algo_dnascope ::
  "string \<Rightarrow> string \<Rightarrow> kwargs \<Rightarrow> string option \<Rightarrow> string option \<Rightarrow> error + string" where
  "cmd_algo_dnascope model out_vcf kw bed_key gvcf =
     (case (case gvcf of
              None \<Rightarrow> Inr []
            | Some g \<Rightarrow>
                if g \<noteq> [] then
                  (case dict_item kw ''model_bundle'' of
                     Inl e \<Rightarrow> Inl e
                   | Inr model_bundle \<Rightarrow>
                       Inr ('' --algo DNAscope --model '' @ py_str model_bundle @ ''/gvcf_model''
                              @ '' --emit_mode gvcf '' @ g @ '' ''))
                else Inr []) of
        Inl e \<Rightarrow> Inl e
      | Inr gvcf_str \<Rightarrow>
          (case (if truthy (dict_get kw ''dbsnp'')
                 then (case getattr_name (dict_get kw ''dbsnp'') of
                         Inl e \<Rightarrow> Inl e
                       | Inr n \<Rightarrow> Inr ('' --dbsnp '' @ py_str n @ '' ''))
                 else Inr []) of
             Inl e \<Rightarrow> Inl e
           | Inr dbsnp \<Rightarrow>
               (let cmd = '' '' @ gvcf_str @ ''--algo DNAscope '' @ dbsnp @ '' --model '' @ model
                            @ '' '' @ out_vcf
                in case call_driver_positional bed_key kw of
                     Inl e \<Rightarrow> Inl e
                   | Inr driver \<Rightarrow> Inr (driver @ cmd))))"

definition cmd_dnascope_hp :: "string option \<Rightarrow> string \<Rightarrow> string \<Rightarrow> kwargs \<Rightarrow> string" where
  "cmd_dnascope_hp model repeat_model hp_vcf kw =
     (let cmd = ''--algo DNAscopeHP '';
          cmd = (if truthy (dict_get kw ''dbsnp'')
                 then cmd @ ''--dbsnp '' @ py_str (name (dict_get kw ''dbsnp'')) @ '' ''
                 else cmd);
          cmd = (case model of None \<Rightarrow> cmd | Some m \<Rightarrow> cmd @ ''--model '' @ m @ '' '');
          cmd = cmd @ ''--pcr_indel_model '' @ repeat_model @ '' --min_repeat_count 6 ''
      in cmd @ hp_vcf)"

section \<open>Region subtraction and the synthesized whole-genome region file\<close>

text \<open>
  Text files are modelled by their decoded content. A file system maps a path to the
  content of the file there and says which paths can be opened for writing. Newlines are
  those of a POSIX system: reading translates \<^verbatim>\<open>\r\n\<close> and \<^verbatim>\<open>\r\<close> to \<^verbatim>\<open>\n\<close>, writing
  leaves \<^verbatim>\<open>\n\<close> as it is.
\<close>

record filesystem =
  files :: "string \<rightharpoonup> string"
  writable :: "string \<Rightarrow> bool"

abbreviation TAB :: char where "TAB \<equiv> CHR 0x09"
abbreviation LF :: char where "LF \<equiv> CHR 0x0A"
abbreviation CR :: char where "CR \<equiv> CHR 0x0D"

text \<open>\<^verbatim>\<open>str.isspace\<close> on one code point below 256.\<close>

definition is_space :: "char \<Rightarrow> bool" where
  "is_space c \<longleftrightarrow>
     c \<in> {CHR 0x09, CHR 0x0A, CHR 0x0B, CHR 0x0C, CHR 0x0D, CHR 0x1C, CHR 0x1D, CHR 0x1E,
          CHR 0x1F, CHR 0x20, CHR 0x85, CHR 0xA0}"

text \<open>\<^verbatim>\<open>s.strip()\<close>: white space removed at both ends.\<close>

definition strip :: "string \<Rightarrow> string" where
  "strip s = dropWhile is_space (rev (dropWhile is_space (rev s)))"

text \<open>\<^verbatim>\<open>s.split(sep)\<close> for a separator of one character: always at least one field.\<close>

fun split_chr :: "char \<Rightarrow> string \<Rightarrow> string list" where
  "split_chr sep [] = [[]]"
| "split_chr sep (c # cs) =
     (if c = sep then [] # split_chr sep cs
      else (case split_chr sep cs of
              [] \<Rightarrow> [[c]]
            | f # fs \<Rightarrow> (c # f) # fs))"

text \<open>Universal newlines on reading.\<close>

fun translate_newlines :: "string \<Rightarrow> string" where
  "translate_newlines [] = []"
| "translate_newlines [c] = (if c = CR then [LF] else [c])"
| "translate_newlines (c # d # cs) =
     (if c = CR then
        (if d = LF then LF # translate_newlines cs else LF # translate_newlines (d # cs))
      else c # translate_newlines (d # cs))"

text \<open>The lines a text file yields when iterated: each keeps its \<^verbatim>\<open>\n\<close>.\<close>

fun py_lines :: "string \<Rightarrow> string list" where
  "py_lines [] = []"
| "py_lines (c # cs) =
     (if c = LF then [c] # py_lines cs
      else (case py_lines cs of
              [] \<Rightarrow> [[c]]
            | l # ls \<Rightarrow> (c # l) # ls))"

text \<open>
  The loop over the lines of the index. It returns what has been written so far and the
  error that stopped it, if any: \<^verbatim>\<open>toks[1]\<close> raises \<^verbatim>\<open>IndexError\<close> on a line with
  fewer than two fields.
\<close>

fun write_bed_rows :: "string list \<Rightarrow> string \<Rightarrow> error option \<times> string" where
  "write_bed_rows [] written = (None, written)"
| "write_bed_rows (line # rest) written =
     (let toks = split_chr TAB (strip line)
      in if length toks < 2 then (Some IndexError, written)
         else write_bed_rows rest (written @ toks ! 0 @ [TAB] @ ''0'' @ [TAB] @ toks ! 1 @ [LF]))"

definition cmd_bedtools_subtract ::
  "pyval \<Rightarrow> string \<Rightarrow> string \<Rightarrow> kwargs \<Rightarrow> filesystem \<Rightarrow> (error + string) \<times> filesystem" where
  "cmd_bedtools_subtract regions_bed phased_bed unphased_bed kw fs =
     (let finish = (\<lambda>regions_bed fs'.
            (Inr (''bedtools subtract -a '' @ py_str (name regions_bed) @ '' -b '' @ phased_bed
                    @ '' '' @ ''> '' @ unphased_bed), fs'))
      in if regions_bed = PNone then
           (case dict_item kw ''tmp_base'' of
              Inl e \<Rightarrow> (Inl e, fs)
            | Inr tmp_base \<Rightarrow>
                (let out = py_str tmp_base @ ''_reference.bed''
                 in if \<not> writable fs out then (Inl (OSError out), fs)
                    else
                      (let fs1 = fs\<lparr>files := (files fs)(out \<mapsto> [])\<rparr>
                       in case dict_item kw ''reference'' of
                            Inl e \<Rightarrow> (Inl e, fs1)
                          | Inr reference \<Rightarrow>
                              (case name reference of
                                 PStr r \<Rightarrow>
                                   (case files fs1 (r @ ''.fai'') of
                                      None \<Rightarrow> (Inl (FileNotFoundError (r @ ''.fai'')), fs1)
                                    | Some text \<Rightarrow>
                                        (case write_bed_rows
                                                (py_lines (translate_newlines text)) [] of
                                           (err, written) \<Rightarrow>
                                             (let fs2 = fs1\<lparr>files := (files fs1)(out \<mapsto> written)\<rparr>
                                              in case err of
                                                   Some e \<Rightarrow> (Inl e, fs2)
                                                 | None \<Rightarrow> finish (PStr out) fs2)))
                               | _ \<Rightarrow> (Inl TypeError, fs1)))))
         else finish regions_bed fs)"

text \<open>
  The call \<^verbatim>\<open>cmd_bedtools_subtract(regions_bed, phased_bed, unphased_bed, **kwargs)\<close>: the
  dictionary must not hold the name of a parameter.
\<close>

definition call_bedtools_subtract ::
  "pyval \<Rightarrow> string \<Rightarrow> string \<Rightarrow> kwargs \<Rightarrow> filesystem \<Rightarrow> (error + string) \<times> filesystem" where
  "call_bedtools_subtract regions_bed phased_bed unphased_bed kw fs =
     (if kw ''regions_bed'' \<noteq> None \<or> kw ''phased_bed'' \<noteq> None \<or> kw ''unphased_bed'' \<noteq> None
      then (Inl TypeError, fs)
      else cmd_bedtools_subtract regions_bed phased_bed unphased_bed kw fs)"

text \<open>
  The reference index (\<^verbatim>\<open>.fai\<close>) as the file system interface describes it: one row per
  contig, tab-separated, with the contig name in column 1 and its length in column 2.
  A row is given by its name, its length and its further columns; the name has no white
  space, the length is a non-empty string of digits, and no column contains a tab or a
  line break. \<open>fai_line\<close> is the text of a row of the index, \<open>bed_line\<close> the line of the
  region file that belongs to it.
\<close>

type_synonym fai_row = "string \<times> string \<times> string list"

fun fai_line :: "fai_row \<Rightarrow> string" where
  "fai_line (contig, len, cols) =
     contig @ [TAB] @ len @ concat (map (\<lambda>col. TAB # col) cols) @ [LF]"

fun fai_row_ok :: "fai_row \<Rightarrow> bool" where
  "fai_row_ok (contig, len, cols) \<longleftrightarrow>
     contig \<noteq> [] \<and> list_all (\<lambda>c. \<not> is_space c) contig
     \<and> len \<noteq> [] \<and> list_all (\<lambda>c. c \<in> set ''0123456789'') len
     \<and> list_all (\<lambda>col. list_all (\<lambda>c. c \<noteq> TAB \<and> c \<noteq> LF \<and> c \<noteq> CR) col) cols"

fun bed_line :: "fai_row \<Rightarrow> string" where
  "bed_line (contig, len, cols) = contig @ [TAB] @ ''0'' @ [TAB] @ len @ [LF]"

section \<open>A builder call and the dictionary after it\<close>

text \<open>
  One constructor for each builder of the module, with the arguments other than the
  dictionary. \<open>run_builder\<close> gives the result of the call and the caller's dictionary
  after it. The builders that take \<^verbatim>\<open>**kwargs\<close> work on a fresh dictionary; of those
  that take the dictionary itself, only \<^verbatim>\<open>cmd_repeat_model\<close> contains an assignment to it.
\<close>

datatype builder_call =
    Variant_phaser string string string string
  | Bedtools_subtract pyval string string filesystem
  | Repeat_model string string
  | Model_apply string string string
  | Sentieon_driver "string option" bool
  | Haploid_patch string string string string pyval
  | Vcf_mod_patch string string string
  | Gvcf_combine string string
  | Vcf_mod_merge string string string string string string
  | Algo_dnascope string string "string option" "string option"
  | Dnascope_hp "string option" string string

fun run_builder :: "builder_call \<Rightarrow> kwargs \<Rightarrow> (error + string) \<times> kwargs" where
  "run_builder (Variant_phaser vcf phased_bed phased_vcf phased_ext) kw =
     (cmd_variant_phaser vcf phased_bed phased_vcf phased_ext kw, kw)"
| "run_builder (Bedtools_subtract regions_bed phased_bed unphased_bed fs) kw =
     (fst (call_bedtools_subtract regions_bed phased_bed unphased_bed kw fs), kw)"
| "run_builder (Repeat_model phased_bed phased_ext) kw =
     cmd_repeat_model phased_bed phased_ext kw"
| "run_builder (Model_apply model inp_vcf out_vcf) kw =
     (cmd_model_apply model inp_vcf out_vcf kw, kw)"
| "run_builder (Sentieon_driver bed_key skip_sample_input) kw =
     (call_driver_named bed_key skip_sample_input kw, kw)"
| "run_builder (Haploid_patch hap1_patch hap2_patch hap_patt tech phased_vcf) kw =
     (cmd_pyexec_vcf_mod_haploid_patch hap1_patch hap2_patch hap_patt tech phased_vcf kw, kw)"
| "run_builder (Vcf_mod_patch out_vcf vcf vcf_hp) kw =
     (cmd_pyexec_vcf_mod_patch out_vcf vcf vcf_hp kw, kw)"
| "run_builder (Gvcf_combine gvcf out_vcf) kw =
     (cmd_pyexec_gvcf_combine gvcf out_vcf kw, kw)"
| "run_builder (Vcf_mod_merge hap1_vcf hap2_vcf unphased_vcf phased_vcf phased_bed out_vcf) kw =
     (cmd_pyexec_vcf_mod_merge hap1_vcf hap2_vcf unphased_vcf phased_vcf phased_bed out_vcf kw,
      kw)"
| "run_builder (Algo_dnascope model out_vcf bed_key gvcf) kw =
     (cmd_algo_dnascope model out_vcf kw bed_key gvcf, kw)"
| "run_builder (Dnascope_hp model repeat_model hp_vcf) kw =
     (Inr (cmd_dnascope_hp model repeat_model hp_vcf kw), kw)"

section \<open>Properties of the path resolution helper\<close>

text \<open>
  C9. \<open>name\<close> is a total function: it has a value for every input and no error result.
  For a value that exposes a \<^verbatim>\<open>name\<close> attribute it returns the value of the attribute,
  for any other value it returns the input unchanged. On a path-like value (a string, or
  an object whose \<^verbatim>\<open>name\<close> is a string) the result is a string, and resolving twice is
  the same as resolving once. The function is a pure HOL function of its argument, so it
  has no effect on any state.
\<close>

theorem name_total_idempotent:
  "name (PObj (Some v) r) = v
   \<and> (\<not> hasattr_name x \<longrightarrow> name x = x)
   \<and> (path_like x \<longrightarrow> name (name x) = name x \<and> (\<exists>s. name x = PStr s))"
proof -
  have unchanged: "\<not> hasattr_name x \<longrightarrow> name x = x"
    by (cases x rule: name.cases) simp_all
  have idem: "path_like x \<longrightarrow> name (name x) = name x \<and> (\<exists>s. name x = PStr s)"
    by (cases x rule: path_like.cases) simp_all
  from unchanged idem show ?thesis by simp
qed

theorem name_total_idempotent_witness:
  "name (PObj (Some (PStr ''ref.fasta'')) ''<file>'') = PStr ''ref.fasta''
   \<and> \<not> hasattr_name (PStr ''ref.fasta'') \<and> name (PStr ''ref.fasta'') = PStr ''ref.fasta''
   \<and> path_like (PObj (Some (PStr ''ref.fasta'')) ''<file>'')
   \<and> name (name (PObj (Some (PStr ''ref.fasta'')) ''<file>''))
       = name (PObj (Some (PStr ''ref.fasta'')) ''<file>'')"
  using name_total_idempotent [of "PStr ''ref.fasta''" "''<file>''" "PStr ''ref.fasta''"]
    name_total_idempotent [of "PStr ''ref.fasta''" "''<file>''"
      "PObj (Some (PStr ''ref.fasta'')) ''<file>''"]
  by simp

section \<open>Properties of the driver invocation builder\<close>

lemma driver_output:
  assumes "kw ''cores'' = Some cores"
    and "kw ''reference'' = Some reference"
    and "\<not> skip_sample_input \<Longrightarrow> kw ''sample_input'' = Some sample_input"
  shows "cmd_sentieon_driver bed_key skip_sample_input kw =
     Inr (''sentieon driver -t '' @ py_str cores @ '' -r '' @ py_str (name reference) @ '' ''
          @ (case bed_key of
               None \<Rightarrow> []
             | Some k \<Rightarrow> (case kw k of
                            None \<Rightarrow> []
                          | Some bed \<Rightarrow> if bed = PNone then []
                                        else '' --interval '' @ py_str (name bed)))
          @ (if skip_sample_input then [] else '' -i '' @ py_str (name sample_input))
          @ (case kw ''read-filter'' of
               None \<Rightarrow> []
             | Some spec \<Rightarrow> if truthy spec then '' --read_filter '' @ py_str spec else []))"
  using assms
  by (cases skip_sample_input)
     (simp_all add: cmd_sentieon_driver_def dict_get_def dict_item_def
        split: option.split)

text \<open>
  C1. For every dictionary that holds \<^verbatim>\<open>cores\<close> and \<^verbatim>\<open>reference\<close>, and \<^verbatim>\<open>sample_input\<close>
  when the sample input is not skipped, \<open>cmd_sentieon_driver\<close> returns the string
  \<^verbatim>\<open>sentieon driver -t <cores> -r <resolved reference> \<close> followed, in this order, by the
  clause \<^verbatim>\<open> --interval <resolved bed>\<close> exactly when \<open>bed_key\<close> is given and the dictionary
  maps it to a value other than \<^verbatim>\<open>None\<close> (nothing at all otherwise), the clause
  \<^verbatim>\<open> -i <resolved sample_input>\<close> exactly when the sample input is not skipped, and the
  clause \<^verbatim>\<open> --read_filter <spec>\<close> exactly when the key \<^verbatim>\<open>read-filter\<close> holds a value, that
  is a value that counts as true (not \<^verbatim>\<open>None\<close> and not empty). The witness is the call of
  the docstring, with two spaces before \<^verbatim>\<open>--interval\<close>.
\<close>

theorem cmd_sentieon_driver_string:
  assumes "kw ''cores'' = Some cores"
    and "kw ''reference'' = Some reference"
    and "\<not> skip_sample_input \<Longrightarrow> kw ''sample_input'' = Some sample_input"
  shows "cmd_sentieon_driver bed_key skip_sample_input kw =
     Inr (''sentieon driver -t '' @ py_str cores @ '' -r '' @ py_str (name reference) @ '' ''
          @ (case bed_key of
               None \<Rightarrow> []
             | Some k \<Rightarrow> (case kw k of
                            None \<Rightarrow> []
                          | Some bed \<Rightarrow> if bed = PNone then []
                                        else '' --interval '' @ py_str (name bed)))
          @ (if skip_sample_input then [] else '' -i '' @ py_str (name sample_input))
          @ (case kw ''read-filter'' of
               None \<Rightarrow> []
             | Some spec \<Rightarrow> if truthy spec then '' --read_filter '' @ py_str spec else []))"
  using assms by (rule driver_output)

theorem cmd_sentieon_driver_string_witness:
  "cmd_sentieon_driver (Some ''regions'') False
     [''cores'' \<mapsto> PInt 4, ''reference'' \<mapsto> PStr ''ref.fasta'',
      ''sample_input'' \<mapsto> PStr ''sample.bam'', ''regions'' \<mapsto> PStr ''phased.bed'']
   = Inr ''sentieon driver -t 4 -r ref.fasta  --interval phased.bed -i sample.bam''"
  using cmd_sentieon_driver_string
    [of "[''cores'' \<mapsto> PInt 4, ''reference'' \<mapsto> PStr ''ref.fasta'',
          ''sample_input'' \<mapsto> PStr ''sample.bam'', ''regions'' \<mapsto> PStr ''phased.bed'']"
        "PInt 4" "PStr ''ref.fasta''" False "PStr ''sample.bam''" "Some ''regions''"]
  by (simp add: str_int_def str_nat.simps)

lemma driver_missing_key:
  assumes "kw ''cores'' = None \<or> kw ''reference'' = None"
  shows "cmd_sentieon_driver bed_key skip kw =
           Inl (KeyError (if kw ''cores'' = None then ''cores'' else ''reference''))"
  using assms
  by (auto simp add: cmd_sentieon_driver_def dict_item_def Let_def split: option.split)

lemma named_missing_key:
  assumes "kw ''cores'' = None \<or> kw ''reference'' = None"
  shows "isl (call_driver_named bed_key skip kw)"
  using driver_missing_key [OF assms] by (simp add: call_driver_named_def)

lemma positional_missing_key:
  assumes "kw ''cores'' = None \<or> kw ''reference'' = None"
  shows "isl (call_driver_positional bed_key kw)"
proof -
  let ?kw = "kw(''skip_sample_input'' := None)"
  have "?kw ''cores'' = None \<or> ?kw ''reference'' = None" using assms by simp
  from driver_missing_key [OF this]
  have "isl (cmd_sentieon_driver bed_key s ?kw)" for s
    by (simp del: fun_upd_apply)
  then show ?thesis
    unfolding call_driver_positional_def by (simp del: fun_upd_apply)
qed

text \<open>
  C7. A dictionary that lacks \<^verbatim>\<open>cores\<close> or lacks \<^verbatim>\<open>reference\<close> makes
  \<open>cmd_sentieon_driver\<close> raise \<^verbatim>\<open>KeyError\<close> for the first of the two that is missing; no
  string is returned. Every builder that calls the driver (\<open>cmd_variant_phaser\<close>,
  \<open>cmd_repeat_model\<close>, \<open>cmd_model_apply\<close>, \<open>cmd_algo_dnascope\<close>) ends in an error as well.
\<close>

theorem missing_cores_or_reference_fails:
  assumes "kw ''cores'' = None \<or> kw ''reference'' = None"
  shows "cmd_sentieon_driver bed_key skip_sample_input kw =
           Inl (KeyError (if kw ''cores'' = None then ''cores'' else ''reference''))
       \<and> isl (cmd_variant_phaser vcf phased_bed phased_vcf phased_ext kw)
       \<and> isl (fst (cmd_repeat_model phased_bed phased_ext kw))
       \<and> isl (cmd_model_apply model inp_vcf out_vcf kw)
       \<and> isl (cmd_algo_dnascope model out_vcf kw bed_key gvcf)"
proof -
  have phaser: "isl (cmd_variant_phaser vcf phased_bed phased_vcf phased_ext kw)"
    using named_missing_key [OF assms, of None False]
    by (cases "call_driver_named None False kw") (simp_all add: cmd_variant_phaser_def)
  have applier: "isl (cmd_model_apply model inp_vcf out_vcf kw)"
    using named_missing_key [OF assms, of None True]
    by (cases "call_driver_named None True kw") (simp_all add: cmd_model_apply_def)
  let ?kw1 = "kw(''phased_bed'' \<mapsto> PStr phased_bed)"
  have "?kw1 ''cores'' = None \<or> ?kw1 ''reference'' = None" using assms by simp
  from named_missing_key [OF this, of "Some ''phased_bed''" False]
  obtain e where "call_driver_named (Some ''phased_bed'') False ?kw1 = Inl e"
    unfolding isl_def by blast
  then have repeat: "isl (fst (cmd_repeat_model phased_bed phased_ext kw))"
    by (simp add: cmd_repeat_model_def Let_def del: fun_upd_apply)
  have dnascope: "isl (cmd_algo_dnascope model out_vcf kw bed_key gvcf)"
    using positional_missing_key [OF assms, of bed_key]
    by (cases "call_driver_positional bed_key kw")
       (simp_all add: cmd_algo_dnascope_def Let_def split: sum.split option.split)
  from driver_missing_key [OF assms] phaser applier repeat dnascope show ?thesis by simp
qed

theorem missing_cores_or_reference_fails_witness:
  "cmd_sentieon_driver None False
      [''reference'' \<mapsto> PStr ''ref.fasta'', ''sample_input'' \<mapsto> PStr ''sample.bam'']
     = Inl (KeyError ''cores'')
   \<and> cmd_sentieon_driver None False
      [''cores'' \<mapsto> PInt 4, ''sample_input'' \<mapsto> PStr ''sample.bam'']
     = Inl (KeyError ''reference'')
   \<and> isl (cmd_model_apply ''m'' ''in.vcf.gz'' ''out.vcf.gz''
      [''cores'' \<mapsto> PInt 4, ''sample_input'' \<mapsto> PStr ''sample.bam''])"
  using missing_cores_or_reference_fails
    [of "[''reference'' \<mapsto> PStr ''ref.fasta'', ''sample_input'' \<mapsto> PStr ''sample.bam'']"
        None False]
    missing_cores_or_reference_fails
    [of "[''cores'' \<mapsto> PInt 4, ''sample_input'' \<mapsto> PStr ''sample.bam'']"
        None False _ _ _ _ "''m''" "''in.vcf.gz''" "''out.vcf.gz''"]
  by simp

section \<open>Properties of the variant callers\<close>

text \<open>
  C8. With no model, \<open>cmd_dnascope_hp\<close> returns \<^verbatim>\<open>--algo DNAscopeHP \<close>, then the clause
  \<^verbatim>\<open>--dbsnp <resolved dbsnp> \<close> when the dictionary holds a dbsnp value that counts as
  true, then \<^verbatim>\<open>--pcr_indel_model <repeat_model> --min_repeat_count 6 \<close> and the output
  path: the builder puts no \<^verbatim>\<open>--model\<close> clause into the string. With a model the same
  string has \<^verbatim>\<open>--model <model> \<close> between the dbsnp clause and the pcr-indel clause. The
  function has no error result. The witness is the pair of calls of the docstring.
\<close>

theorem cmd_dnascope_hp_string:
  "cmd_dnascope_hp None repeat_model hp_vcf kw =
     ''--algo DNAscopeHP ''
     @ (case kw ''dbsnp'' of
          None \<Rightarrow> []
        | Some d \<Rightarrow> if truthy d then ''--dbsnp '' @ py_str (name d) @ '' '' else [])
     @ ''--pcr_indel_model '' @ repeat_model @ '' --min_repeat_count 6 '' @ hp_vcf
   \<and> cmd_dnascope_hp (Some model) repeat_model hp_vcf kw =
     ''--algo DNAscopeHP ''
     @ (case kw ''dbsnp'' of
          None \<Rightarrow> []
        | Some d \<Rightarrow> if truthy d then ''--dbsnp '' @ py_str (name d) @ '' '' else [])
     @ ''--model '' @ model @ '' ''
     @ ''--pcr_indel_model '' @ repeat_model @ '' --min_repeat_count 6 '' @ hp_vcf"
  by (simp add: cmd_dnascope_hp_def dict_get_def split: option.split)

theorem cmd_dnascope_hp_string_witness:
  "cmd_dnascope_hp None ''repeat_model'' ''hp.vcf.gz'' [''dbsnp'' \<mapsto> PStr ''dbsnp.vcf.gz'']
     = ''--algo DNAscopeHP --dbsnp dbsnp.vcf.gz --pcr_indel_model repeat_model --min_repeat_count 6 hp.vcf.gz''
   \<and> cmd_dnascope_hp (Some ''haploid_hp_model'') ''repeat_model'' ''hp.vcf.gz''
        [''dbsnp'' \<mapsto> PStr ''dbsnp.vcf.gz'']
     = ''--algo DNAscopeHP --dbsnp dbsnp.vcf.gz --model haploid_hp_model --pcr_indel_model repeat_model --min_repeat_count 6 hp.vcf.gz''"
  using cmd_dnascope_hp_string
    [of "''repeat_model''" "''hp.vcf.gz''" "[''dbsnp'' \<mapsto> PStr ''dbsnp.vcf.gz'']"
        "''haploid_hp_model''"]
  by simp

text \<open>
  C10. When the dictionary maps \<^verbatim>\<open>dbsnp\<close> to a value that is present but counts as false
  (the empty string, for one), \<open>cmd_dnascope_hp\<close> and \<open>cmd_algo_dnascope\<close> both leave the
  \<^verbatim>\<open>--dbsnp\<close> clause out and still return a string: for \<open>cmd_algo_dnascope\<close> the driver
  prefix followed by the optional gVCF clause and \<^verbatim>\<open>--algo DNAscope  --model <model> <out>\<close>,
  given the keys the rest of the builder needs.
\<close>

theorem falsy_dbsnp_omits_clause:
  assumes "kw ''dbsnp'' = Some d" and "\<not> truthy d"
  shows "cmd_dnascope_hp model repeat_model hp_vcf kw =
           ''--algo DNAscopeHP ''
           @ (case model of None \<Rightarrow> [] | Some m \<Rightarrow> ''--model '' @ m @ '' '')
           @ ''--pcr_indel_model '' @ repeat_model @ '' --min_repeat_count 6 '' @ hp_vcf
       \<and> (kw ''cores'' = Some cores \<and> kw ''reference'' = Some reference
            \<and> kw ''sample_input'' = Some sample_input
            \<and> kw ''bed_key'' = None \<and> kw ''skip_sample_input'' = None
            \<and> (gvcf \<noteq> None \<and> gvcf \<noteq> Some [] \<longrightarrow> kw ''model_bundle'' = Some model_bundle)
            \<longrightarrow>
            (\<exists>driver. cmd_sentieon_driver bed_key False kw = Inr driver
              \<and> cmd_algo_dnascope m out_vcf kw bed_key gvcf =
                  Inr (driver @ '' ''
                       @ (case gvcf of
                            None \<Rightarrow> []
                          | Some g \<Rightarrow>
                              if g = [] then []
                              else '' --algo DNAscope --model '' @ py_str model_bundle
                                   @ ''/gvcf_model'' @ '' --emit_mode gvcf '' @ g @ '' '')
                       @ ''--algo DNAscope '' @ '' --model '' @ m @ '' '' @ out_vcf)))"
proof (intro conjI impI)
  show "cmd_dnascope_hp model repeat_model hp_vcf kw =
           ''--algo DNAscopeHP ''
           @ (case model of None \<Rightarrow> [] | Some m \<Rightarrow> ''--model '' @ m @ '' '')
           @ ''--pcr_indel_model '' @ repeat_model @ '' --min_repeat_count 6 '' @ hp_vcf"
    using assms by (simp add: cmd_dnascope_hp_def dict_get_def split: option.split)
next
  assume keys: "kw ''cores'' = Some cores \<and> kw ''reference'' = Some reference
            \<and> kw ''sample_input'' = Some sample_input
            \<and> kw ''bed_key'' = None \<and> kw ''skip_sample_input'' = None
            \<and> (gvcf \<noteq> None \<and> gvcf \<noteq> Some [] \<longrightarrow> kw ''model_bundle'' = Some model_bundle)"
  then have c: "kw ''cores'' = Some cores" and r: "kw ''reference'' = Some reference"
    and s: "kw ''sample_input'' = Some sample_input"
    and b: "kw ''bed_key'' = None" and k: "kw ''skip_sample_input'' = None"
    and mb: "gvcf \<noteq> None \<and> gvcf \<noteq> Some [] \<longrightarrow> kw ''model_bundle'' = Some model_bundle"
    by simp_all
  from driver_output [OF c r, of False sample_input bed_key] s
  obtain driver where driver: "cmd_sentieon_driver bed_key False kw = Inr driver"
    by simp
  have same: "kw(''skip_sample_input'' := None) = kw"
    using k by (simp add: fun_upd_idem)
  have pos: "call_driver_positional bed_key kw = Inr driver"
    using driver b k same by (simp add: call_driver_positional_def)
  have dn: "cmd_algo_dnascope m out_vcf kw bed_key gvcf =
                Inr (driver @ '' ''
                     @ (case gvcf of
                          None \<Rightarrow> []
                        | Some g \<Rightarrow>
                            if g = [] then []
                            else '' --algo DNAscope --model '' @ py_str model_bundle
                                 @ ''/gvcf_model'' @ '' --emit_mode gvcf '' @ g @ '' '')
                     @ ''--algo DNAscope '' @ '' --model '' @ m @ '' '' @ out_vcf)"
  proof (cases "gvcf = None \<or> gvcf = Some []")
    case True
    then show ?thesis
      using assms pos by (auto simp add: cmd_algo_dnascope_def dict_get_def)
  next
    case False
    then obtain g where g: "gvcf = Some g" "g \<noteq> []" by (cases gvcf) auto
    with False mb have "kw ''model_bundle'' = Some model_bundle" by simp
    then show ?thesis
      using assms pos g by (simp add: cmd_algo_dnascope_def dict_get_def dict_item_def)
  qed
  from driver dn
  show "\<exists>driver. cmd_sentieon_driver bed_key False kw = Inr driver
              \<and> cmd_algo_dnascope m out_vcf kw bed_key gvcf =
                  Inr (driver @ '' ''
                       @ (case gvcf of
                            None \<Rightarrow> []
                          | Some g \<Rightarrow>
                              if g = [] then []
                              else '' --algo DNAscope --model '' @ py_str model_bundle
                                   @ ''/gvcf_model'' @ '' --emit_mode gvcf '' @ g @ '' '')
                       @ ''--algo DNAscope '' @ '' --model '' @ m @ '' '' @ out_vcf)"
    by blast
qed

theorem falsy_dbsnp_omits_clause_witness:
  "cmd_dnascope_hp None ''repeat_model'' ''hp.vcf.gz''
      [''cores'' \<mapsto> PInt 4, ''reference'' \<mapsto> PStr ''ref.fasta'',
       ''sample_input'' \<mapsto> PStr ''sample.bam'', ''dbsnp'' \<mapsto> PStr []]
     = ''--algo DNAscopeHP --pcr_indel_model repeat_model --min_repeat_count 6 hp.vcf.gz''
   \<and> cmd_algo_dnascope ''model'' ''out.vcf.gz''
      [''cores'' \<mapsto> PInt 4, ''reference'' \<mapsto> PStr ''ref.fasta'',
       ''sample_input'' \<mapsto> PStr ''sample.bam'', ''dbsnp'' \<mapsto> PStr []] None None
     = Inr ''sentieon driver -t 4 -r ref.fasta  -i sample.bam --algo DNAscope  --model model out.vcf.gz''"
  using falsy_dbsnp_omits_clause
    [where kw = "[''cores'' \<mapsto> PInt 4, ''reference'' \<mapsto> PStr ''ref.fasta'',
          ''sample_input'' \<mapsto> PStr ''sample.bam'', ''dbsnp'' \<mapsto> PStr []]"
       and d = "PStr []" and gvcf = None and model_bundle = PNone and cores = "PInt 4"
       and reference = "PStr ''ref.fasta''" and sample_input = "PStr ''sample.bam''"
       and model = None and repeat_model = "''repeat_model''" and hp_vcf = "''hp.vcf.gz''"
       and bed_key = None and m = "''model''" and out_vcf = "''out.vcf.gz''"]
    driver_output
    [of "[''cores'' \<mapsto> PInt 4, ''reference'' \<mapsto> PStr ''ref.fasta'',
          ''sample_input'' \<mapsto> PStr ''sample.bam'', ''dbsnp'' \<mapsto> PStr []]"
        "PInt 4" "PStr ''ref.fasta''" False "PStr ''sample.bam''" None]
  by (simp add: str_int_def str_nat.simps)

text \<open>
  C3. \<open>cmd_algo_dnascope\<close> reads the attribute \<^verbatim>\<open>kwargs['dbsnp'].name\<close> directly and does
  not go through \<open>name\<close>. For a dbsnp value that is a plain non-empty string the call
  therefore raises \<^verbatim>\<open>AttributeError\<close>, whatever the rest of the dictionary holds, where
  the sibling \<open>cmd_dnascope_hp\<close> resolves the same value with \<open>name\<close> and emits
  \<^verbatim>\<open>--dbsnp <path> \<close>.
\<close>

theorem string_dbsnp_raises_attribute_error:
  assumes "kw ''dbsnp'' = Some (PStr p)" and "p \<noteq> []"
    and "gvcf = None \<or> gvcf = Some [] \<or> kw ''model_bundle'' \<noteq> None"
  shows "cmd_algo_dnascope model out_vcf kw bed_key gvcf = Inl AttributeError
       \<and> cmd_dnascope_hp None repeat_model hp_vcf kw =
           ''--algo DNAscopeHP '' @ ''--dbsnp '' @ p @ '' ''
           @ ''--pcr_indel_model '' @ repeat_model @ '' --min_repeat_count 6 '' @ hp_vcf"
proof -
  have "cmd_algo_dnascope model out_vcf kw bed_key gvcf = Inl AttributeError"
  proof (cases "gvcf = None \<or> gvcf = Some []")
    case True
    then show ?thesis
      using assms(1,2) by (auto simp add: cmd_algo_dnascope_def dict_get_def)
  next
    case False
    with assms(3) obtain g mb where "gvcf = Some g" "g \<noteq> []" "kw ''model_bundle'' = Some mb"
      by (cases gvcf) auto
    then show ?thesis
      using assms(1,2) by (simp add: cmd_algo_dnascope_def dict_get_def dict_item_def)
  qed
  moreover have "cmd_dnascope_hp None repeat_model hp_vcf kw =
           ''--algo DNAscopeHP '' @ ''--dbsnp '' @ p @ '' ''
           @ ''--pcr_indel_model '' @ repeat_model @ '' --min_repeat_count 6 '' @ hp_vcf"
    using assms(1,2) by (simp add: cmd_dnascope_hp_def dict_get_def)
  ultimately show ?thesis by simp
qed

theorem string_dbsnp_raises_attribute_error_witness:
  "cmd_algo_dnascope ''model'' ''out.vcf.gz''
      [''cores'' \<mapsto> PInt 4, ''reference'' \<mapsto> PStr ''ref.fasta'',
       ''sample_input'' \<mapsto> PStr ''sample.bam'', ''dbsnp'' \<mapsto> PStr ''dbsnp.vcf.gz''] None None
     = Inl AttributeError
   \<and> cmd_dnascope_hp None ''repeat_model'' ''hp.vcf.gz''
      [''cores'' \<mapsto> PInt 4, ''reference'' \<mapsto> PStr ''ref.fasta'',
       ''sample_input'' \<mapsto> PStr ''sample.bam'', ''dbsnp'' \<mapsto> PStr ''dbsnp.vcf.gz'']
     = ''--algo DNAscopeHP --dbsnp dbsnp.vcf.gz --pcr_indel_model repeat_model --min_repeat_count 6 hp.vcf.gz''"
  using string_dbsnp_raises_attribute_error
    [of "[''cores'' \<mapsto> PInt 4, ''reference'' \<mapsto> PStr ''ref.fasta'',
          ''sample_input'' \<mapsto> PStr ''sample.bam'', ''dbsnp'' \<mapsto> PStr ''dbsnp.vcf.gz'']"
        "''dbsnp.vcf.gz''" None "''model''" "''out.vcf.gz''" None "''repeat_model''" "''hp.vcf.gz''"]
  by simp

section \<open>Properties of the haploid patch merger\<close>

text \<open>
  C5. A technology tag other than \<^verbatim>\<open>HiFi\<close> and \<^verbatim>\<open>ONT\<close> makes
  \<open>cmd_pyexec_vcf_mod_haploid_patch\<close> raise \<^verbatim>\<open>AssertionError\<close>; no string is returned. With
  \<^verbatim>\<open>HiFi\<close> the command has the clauses \<^verbatim>\<open> --hap1 \<close> and \<^verbatim>\<open> --hap2 \<close>, built from the
  pattern with the infix \<^verbatim>\<open>nohp_\<close>, and no \<^verbatim>\<open> --phased\<close> clause; with \<^verbatim>\<open>ONT\<close> it has the
  clause \<^verbatim>\<open> --phased <phased_vcf>\<close> and neither of the other two. Both end with the clauses
  \<^verbatim>\<open> --hap1_hp \<close> and \<^verbatim>\<open> --hap2_hp \<close>, built from the pattern with the empty infix. The
  witness has the two calls of the docstring.
\<close>

theorem haploid_patch_branches:
  "(tech \<noteq> ''HiFi'' \<and> tech \<noteq> ''ONT'' \<longrightarrow>
      cmd_pyexec_vcf_mod_haploid_patch hap1_patch hap2_patch hap_patt tech phased_vcf kw
        = Inl AssertionError)
   \<and> (kw ''vcf_mod_py'' = Some vcf_mod_py \<and> kw ''cores'' = Some cores
       \<and> py_format hap_patt [PInt 1, PStr []] = Inr hp1
       \<and> py_format hap_patt [PInt 2, PStr []] = Inr hp2 \<longrightarrow>
       (py_format hap_patt [PInt 1, PStr ''nohp_''] = Inr nohp1
        \<and> py_format hap_patt [PInt 2, PStr ''nohp_''] = Inr nohp2 \<longrightarrow>
        cmd_pyexec_vcf_mod_haploid_patch hap1_patch hap2_patch hap_patt ''HiFi'' phased_vcf kw
          = Inr (''sentieon pyexec '' @ py_str vcf_mod_py @ '' -t '' @ py_str cores
                 @ '' haploid_patch --patch1 '' @ hap1_patch @ '' --patch2 '' @ hap2_patch
                 @ '' --hap1 '' @ nohp1 @ '' --hap2 '' @ nohp2
                 @ '' --hap1_hp '' @ hp1 @ '' --hap2_hp '' @ hp2))
       \<and> cmd_pyexec_vcf_mod_haploid_patch hap1_patch hap2_patch hap_patt ''ONT'' phased_vcf kw
          = Inr (''sentieon pyexec '' @ py_str vcf_mod_py @ '' -t '' @ py_str cores
                 @ '' haploid_patch --patch1 '' @ hap1_patch @ '' --patch2 '' @ hap2_patch
                 @ '' --phased '' @ py_str phased_vcf
                 @ '' --hap1_hp '' @ hp1 @ '' --hap2_hp '' @ hp2))"
  by (simp add: cmd_pyexec_vcf_mod_haploid_patch_def dict_item_def)

theorem haploid_patch_branches_witness:
  "cmd_pyexec_vcf_mod_haploid_patch ''h1.vcf.gz'' ''h2.vcf.gz'' ''out_hap%d_%stmp.vcf.gz''
      ''Illumina'' PNone [''cores'' \<mapsto> PInt 2, ''vcf_mod_py'' \<mapsto> PStr ''vcf_mod.py'']
     = Inl AssertionError
   \<and> cmd_pyexec_vcf_mod_haploid_patch ''h1.vcf.gz'' ''h2.vcf.gz'' ''out_hap%d_%stmp.vcf.gz''
      ''HiFi'' PNone [''cores'' \<mapsto> PInt 2, ''vcf_mod_py'' \<mapsto> PStr ''vcf_mod.py'']
     = Inr ''sentieon pyexec vcf_mod.py -t 2 haploid_patch --patch1 h1.vcf.gz --patch2 h2.vcf.gz --hap1 out_hap1_nohp_tmp.vcf.gz --hap2 out_hap2_nohp_tmp.vcf.gz --hap1_hp out_hap1_tmp.vcf.gz --hap2_hp out_hap2_tmp.vcf.gz''
   \<and> cmd_pyexec_vcf_mod_haploid_patch ''h1.vcf.gz'' ''h2.vcf.gz'' ''out_hap%d_%stmp.vcf.gz''
      ''ONT'' (PStr ''ph.vcf'') [''cores'' \<mapsto> PInt 2, ''vcf_mod_py'' \<mapsto> PStr ''vcf_mod.py'']
     = Inr ''sentieon pyexec vcf_mod.py -t 2 haploid_patch --patch1 h1.vcf.gz --patch2 h2.vcf.gz --phased ph.vcf --hap1_hp out_hap1_tmp.vcf.gz --hap2_hp out_hap2_tmp.vcf.gz''"
proof -
  let ?kw = "[''cores'' \<mapsto> PInt 2, ''vcf_mod_py'' \<mapsto> PStr ''vcf_mod.py'']"
  let ?p = "''out_hap%d_%stmp.vcf.gz''"
  have f1: "py_format ?p [PInt 1, PStr []] = Inr ''out_hap1_tmp.vcf.gz''"
    by (simp add: str_int_def str_nat.simps)
  have f2: "py_format ?p [PInt 2, PStr []] = Inr ''out_hap2_tmp.vcf.gz''"
    by (simp add: str_int_def str_nat.simps)
  have f3: "py_format ?p [PInt 1, PStr ''nohp_''] = Inr ''out_hap1_nohp_tmp.vcf.gz''"
    by (simp add: str_int_def str_nat.simps)
  have f4: "py_format ?p [PInt 2, PStr ''nohp_''] = Inr ''out_hap2_nohp_tmp.vcf.gz''"
    by (simp add: str_int_def str_nat.simps)
  have k: "?kw ''vcf_mod_py'' = Some (PStr ''vcf_mod.py'')" "?kw ''cores'' = Some (PInt 2)"
    by simp_all
  have t: "''Illumina'' \<noteq> ''HiFi''" "''Illumina'' \<noteq> ''ONT''" by simp_all
  have a: "cmd_pyexec_vcf_mod_haploid_patch ''h1.vcf.gz'' ''h2.vcf.gz'' ?p ''Illumina'' PNone ?kw
             = Inl AssertionError"
    using haploid_patch_branches [of "''Illumina''" "''h1.vcf.gz''" "''h2.vcf.gz''" ?p PNone ?kw] t
    by blast
  have b: "cmd_pyexec_vcf_mod_haploid_patch ''h1.vcf.gz'' ''h2.vcf.gz'' ?p ''HiFi'' PNone ?kw
     = Inr ''sentieon pyexec vcf_mod.py -t 2 haploid_patch --patch1 h1.vcf.gz --patch2 h2.vcf.gz --hap1 out_hap1_nohp_tmp.vcf.gz --hap2 out_hap2_nohp_tmp.vcf.gz --hap1_hp out_hap1_tmp.vcf.gz --hap2_hp out_hap2_tmp.vcf.gz''"
    using haploid_patch_branches [of "''HiFi''" "''h1.vcf.gz''" "''h2.vcf.gz''" ?p PNone ?kw
        "PStr ''vcf_mod.py''" "PInt 2" "''out_hap1_tmp.vcf.gz''" "''out_hap2_tmp.vcf.gz''"
        "''out_hap1_nohp_tmp.vcf.gz''" "''out_hap2_nohp_tmp.vcf.gz''"] f1 f2 f3 f4 k
    by (simp add: str_int_def str_nat.simps)
  have c: "cmd_pyexec_vcf_mod_haploid_patch ''h1.vcf.gz'' ''h2.vcf.gz'' ?p ''ONT'' (PStr ''ph.vcf'') ?kw
     = Inr ''sentieon pyexec vcf_mod.py -t 2 haploid_patch --patch1 h1.vcf.gz --patch2 h2.vcf.gz --phased ph.vcf --hap1_hp out_hap1_tmp.vcf.gz --hap2_hp out_hap2_tmp.vcf.gz''"
    using haploid_patch_branches [of "''ONT''" "''h1.vcf.gz''" "''h2.vcf.gz''" ?p "PStr ''ph.vcf''" ?kw
        "PStr ''vcf_mod.py''" "PInt 2" "''out_hap1_tmp.vcf.gz''" "''out_hap2_tmp.vcf.gz''"] f1 f2 k
    by (simp add: str_int_def str_nat.simps)
  from a b c show ?thesis by simp
qed

section \<open>The dictionary after a builder call\<close>

text \<open>
  C2, as stated: every builder leaves the dictionary it receives as it was, in particular
  \<open>cmd_repeat_model\<close>. This fails: the call below returns a command, and the dictionary
  after it differs from the one before (it has gained \<^verbatim>\<open>phased_bed\<close> and
  \<^verbatim>\<open>repeat_model\<close>).
\<close>

theorem cmd_repeat_model_writes_counterexample:
  "fst (cmd_repeat_model ''phased.bed'' ''phased.vcf.gz''
      [''cores'' \<mapsto> PInt 4, ''reference'' \<mapsto> PStr ''ref.fasta'',
       ''sample_input'' \<mapsto> PStr ''sample.bam'', ''tmp_base'' \<mapsto> PStr ''/tmp/work''])
     = Inr ''sentieon driver -t 4 -r ref.fasta  --interval phased.bed -i sample.bam --read_filter PhasedReadFilter,phased_vcf=phased.vcf.gz,phase_select=tag --algo RepeatModel --phased --min_map_qual 1 --min_group_count 10000 --read_flag_mask drop=supplementary --repeat_extension 5 --max_repeat_unit_size 2 --min_repeat_count 6 /tmp/work/out_repeat.model''
   \<and> snd (cmd_repeat_model ''phased.bed'' ''phased.vcf.gz''
      [''cores'' \<mapsto> PInt 4, ''reference'' \<mapsto> PStr ''ref.fasta'',
       ''sample_input'' \<mapsto> PStr ''sample.bam'', ''tmp_base'' \<mapsto> PStr ''/tmp/work''])
     \<noteq> [''cores'' \<mapsto> PInt 4, ''reference'' \<mapsto> PStr ''ref.fasta'',
       ''sample_input'' \<mapsto> PStr ''sample.bam'', ''tmp_base'' \<mapsto> PStr ''/tmp/work'']"
proof -
  let ?kw = "[''cores'' \<mapsto> PInt 4, ''reference'' \<mapsto> PStr ''ref.fasta'',
       ''sample_input'' \<mapsto> PStr ''sample.bam'', ''tmp_base'' \<mapsto> PStr ''/tmp/work'']"
  let ?r = "cmd_repeat_model ''phased.bed'' ''phased.vcf.gz'' ?kw"
  have run: "?r = (Inr ''sentieon driver -t 4 -r ref.fasta  --interval phased.bed -i sample.bam --read_filter PhasedReadFilter,phased_vcf=phased.vcf.gz,phase_select=tag --algo RepeatModel --phased --min_map_qual 1 --min_group_count 10000 --read_flag_mask drop=supplementary --repeat_extension 5 --max_repeat_unit_size 2 --min_repeat_count 6 /tmp/work/out_repeat.model'',
      ?kw(''phased_bed'' \<mapsto> PStr ''phased.bed'',
          ''repeat_model'' \<mapsto> PStr ''/tmp/work/out_repeat.model''))"
    by (simp add: cmd_repeat_model_def call_driver_named_def cmd_sentieon_driver_def
        dict_get_def dict_item_def str_int_def str_nat.simps Let_def)
  have "snd ?r ''repeat_model'' \<noteq> ?kw ''repeat_model''"
    unfolding run by simp
  then have "snd ?r \<noteq> ?kw" by metis
  with run show ?thesis by simp
qed

text \<open>
  C2, amended. Every builder other than \<open>cmd_repeat_model\<close> leaves the dictionary it
  receives unchanged. \<open>cmd_repeat_model\<close> writes to it: when it returns a command, the
  dictionary is the one before the call with \<^verbatim>\<open>phased_bed\<close> set to the \<open>phased_bed\<close>
  argument and \<^verbatim>\<open>repeat_model\<close> set to \<^verbatim>\<open><tmp_base>/out_repeat.model\<close>; every other key
  is as before.
\<close>

theorem builders_frame:
  assumes "run_builder c kw = (Inr s, kw')"
  shows "case c of
           Repeat_model phased_bed phased_ext \<Rightarrow>
             (\<exists>tmp_base. kw ''tmp_base'' = Some tmp_base
                \<and> kw' = kw(''phased_bed'' \<mapsto> PStr phased_bed,
                           ''repeat_model'' \<mapsto> PStr (py_str tmp_base @ ''/out_repeat.model'')))
         | _ \<Rightarrow> kw' = kw"
proof (cases c)
  case (Repeat_model phased_bed phased_ext)
  let ?kw1 = "kw(''phased_bed'' \<mapsto> PStr phased_bed)"
  from assms Repeat_model
  have run: "cmd_repeat_model phased_bed phased_ext kw = (Inr s, kw')" by simp
  show ?thesis
  proof (cases "call_driver_named (Some ''phased_bed'') False ?kw1")
    case (Inl e)
    with run show ?thesis by (simp add: cmd_repeat_model_def Let_def del: fun_upd_apply)
  next
    case (Inr cmd)
    show ?thesis
    proof (cases "kw ''tmp_base''")
      case None
      with run Inr show ?thesis
        by (simp add: cmd_repeat_model_def Let_def dict_item_def)
    next
      case (Some tmp_base)
      with run Inr Repeat_model show ?thesis
        by (auto simp add: cmd_repeat_model_def Let_def dict_item_def)
    qed
  qed
qed (use assms in auto)

theorem builders_frame_witness:
  "run_builder (Model_apply ''model'' ''in.vcf.gz'' ''out.vcf.gz'')
      [''cores'' \<mapsto> PInt 4, ''reference'' \<mapsto> PStr ''ref.fasta'',
       ''sample_input'' \<mapsto> PStr ''sample.bam'', ''tmp_base'' \<mapsto> PStr ''/tmp/work'']
     = (Inr ''sentieon driver -t 4 -r ref.fasta --algo DNAModelApply --model model -v in.vcf.gz out.vcf.gz'',
        [''cores'' \<mapsto> PInt 4, ''reference'' \<mapsto> PStr ''ref.fasta'',
         ''sample_input'' \<mapsto> PStr ''sample.bam'', ''tmp_base'' \<mapsto> PStr ''/tmp/work''])
   \<and> snd (run_builder (Repeat_model ''phased.bed'' ''phased.vcf.gz'')
      [''cores'' \<mapsto> PInt 4, ''reference'' \<mapsto> PStr ''ref.fasta'',
       ''sample_input'' \<mapsto> PStr ''sample.bam'', ''tmp_base'' \<mapsto> PStr ''/tmp/work''])
     = [''cores'' \<mapsto> PInt 4, ''reference'' \<mapsto> PStr ''ref.fasta'',
        ''sample_input'' \<mapsto> PStr ''sample.bam'', ''tmp_base'' \<mapsto> PStr ''/tmp/work'',
        ''phased_bed'' \<mapsto> PStr ''phased.bed'',
        ''repeat_model'' \<mapsto> PStr ''/tmp/work/out_repeat.model'']"
proof -
  let ?kw = "[''cores'' \<mapsto> PInt 4, ''reference'' \<mapsto> PStr ''ref.fasta'',
       ''sample_input'' \<mapsto> PStr ''sample.bam'', ''tmp_base'' \<mapsto> PStr ''/tmp/work'']"
  obtain s1 kw1 where r1:
    "run_builder (Model_apply ''model'' ''in.vcf.gz'' ''out.vcf.gz'') ?kw = (s1, kw1)"
    by (cases "run_builder (Model_apply ''model'' ''in.vcf.gz'' ''out.vcf.gz'') ?kw")
  have s1: "s1 = Inr ''sentieon driver -t 4 -r ref.fasta --algo DNAModelApply --model model -v in.vcf.gz out.vcf.gz''"
    using r1
    by (simp add: cmd_model_apply_def call_driver_named_def cmd_sentieon_driver_def
        dict_get_def dict_item_def str_int_def str_nat.simps Let_def)
  from builders_frame [OF r1 [unfolded s1]] have k1: "kw1 = ?kw" by simp
  obtain s2 kw2 where r2:
    "run_builder (Repeat_model ''phased.bed'' ''phased.vcf.gz'') ?kw = (s2, kw2)"
    by (cases "run_builder (Repeat_model ''phased.bed'' ''phased.vcf.gz'') ?kw")
  have s2: "s2 = Inr ''sentieon driver -t 4 -r ref.fasta  --interval phased.bed -i sample.bam --read_filter PhasedReadFilter,phased_vcf=phased.vcf.gz,phase_select=tag --algo RepeatModel --phased --min_map_qual 1 --min_group_count 10000 --read_flag_mask drop=supplementary --repeat_extension 5 --max_repeat_unit_size 2 --min_repeat_count 6 /tmp/work/out_repeat.model''"
    using r2
    by (auto simp add: cmd_repeat_model_def call_driver_named_def cmd_sentieon_driver_def
        dict_get_def dict_item_def str_int_def str_nat.simps Let_def)
  from builders_frame [OF r2 [unfolded s2]]
  have k2: "kw2 = ?kw(''phased_bed'' \<mapsto> PStr ''phased.bed'',
                      ''repeat_model'' \<mapsto> PStr ''/tmp/work/out_repeat.model'')"
    by simp
  from r1 s1 k1 r2 k2 show ?thesis by simp
qed

section \<open>Properties of the gVCF combiner\<close>

lemma py_replace_chars: "set (py_replace old new s) \<subseteq> set s \<union> set new"
proof (induction old new s rule: py_replace.induct)
  case (1 old new)
  then show ?case by auto
next
  case (2 old new c cs)
  have "set (drop (length old - 1) cs) \<subseteq> set cs" by (rule set_drop_subset)
  with 2 show ?case by (auto split: if_splits)
qed

lemma vcf_gz_no_border:
  assumes "''.vcf.gz'' = t @ us" and "prefix us ''.vcf.gz''"
  shows "t = [] \<or> us = []"
proof -
  have "length t \<le> 7" using arg_cong [OF assms(1), of length] by simp
  then consider "length t = 0" | "length t = 1" | "length t = 2" | "length t = 3"
    | "length t = 4" | "length t = 5" | "length t = 6" | "length t = 7"
    by arith
  moreover have us: "us = drop (length t) ''.vcf.gz''"
    using assms(1) by (metis append_eq_conv_conj)
  ultimately show ?thesis
    using assms(2) by cases simp_all
qed

lemma py_replace_skip:
  "old \<noteq> [] \<Longrightarrow> \<not> prefix old (c # cs) \<Longrightarrow>
   py_replace old new (c # cs) = c # py_replace old new cs"
  by simp

lemma py_replace_vcf_suffix:
  assumes "\<not> sublist ''.vcf.gz'' stem"
  shows "py_replace ''.vcf.gz'' new (stem @ ''.vcf.gz'') = stem @ new"
  using assms
proof (induction stem)
  case Nil
  show ?case by simp
next
  case (Cons a stem)
  from Cons.prems have np: "\<not> prefix ''.vcf.gz'' (a # stem)" and ns: "\<not> sublist ''.vcf.gz'' stem"
    by (simp_all add: sublist_Cons_right)
  have "\<not> prefix ''.vcf.gz'' ((a # stem) @ ''.vcf.gz'')"
  proof
    assume "prefix ''.vcf.gz'' ((a # stem) @ ''.vcf.gz'')"
    with np obtain us where us: "''.vcf.gz'' = (a # stem) @ us" "prefix us ''.vcf.gz''"
      unfolding prefix_append by blast
    from vcf_gz_no_border [OF us] have "us = []" by simp
    with us(1) have eq: "a # stem = ''.vcf.gz''" by (simp only: append_Nil2)
    from np show False unfolding eq by simp
  qed
  then have miss: "\<not> prefix ''.vcf.gz'' (a # (stem @ ''.vcf.gz''))"
    unfolding append_Cons .
  have ne: "''.vcf.gz'' \<noteq> []" by simp
  have "py_replace ''.vcf.gz'' new ((a # stem) @ ''.vcf.gz'')
               = a # py_replace ''.vcf.gz'' new (stem @ ''.vcf.gz'')"
    unfolding append_Cons by (rule py_replace_skip [OF ne miss])
  also have "\<dots> = (a # stem) @ new"
    unfolding Cons.IH [OF ns] by (simp only: append_Cons)
  finally show ?case .
qed


text \<open>
  C4, as stated: for every \<open>out_vcf\<close> the command has exactly one \<^verbatim>\<open>|\<close>, and the path
  given to the conversion step is \<open>out_vcf\<close> with its trailing \<^verbatim>\<open>.vcf.gz\<close> replaced by
  \<^verbatim>\<open>.g.vcf.gz\<close>. Both parts fail. \<^verbatim>\<open>str.replace\<close> rewrites every occurrence, so for
  \<^verbatim>\<open>run.vcf.gz.d/out.vcf.gz\<close> the directory part is rewritten too and the path is not
  the one with only the suffix replaced. And an \<open>out_vcf\<close> that contains \<^verbatim>\<open>|\<close> brings
  its own into the command, twice.
\<close>

theorem gvcf_combine_counterexample:
  "cmd_pyexec_gvcf_combine ''in.g.vcf.gz'' ''run.vcf.gz.d/out.vcf.gz''
      [''cores'' \<mapsto> PInt 4, ''gvcf_combine_py'' \<mapsto> PStr ''gvcf_combine.py'']
     = Inr ''sentieon pyexec gvcf_combine.py -t 4 in.g.vcf.gz run.vcf.gz.d/out.vcf.gz - | sentieon util vcfconvert - run.g.vcf.gz.d/out.g.vcf.gz''
   \<and> spec_replace_suffix ''.vcf.gz'' ''.g.vcf.gz'' ''run.vcf.gz.d/out.vcf.gz''
     = ''run.vcf.gz.d/out.g.vcf.gz''
   \<and> cmd_pyexec_gvcf_combine ''in.g.vcf.gz'' ''a|b.vcf.gz''
      [''cores'' \<mapsto> PInt 4, ''gvcf_combine_py'' \<mapsto> PStr ''gvcf_combine.py'']
     = Inr ''sentieon pyexec gvcf_combine.py -t 4 in.g.vcf.gz a|b.vcf.gz - | sentieon util vcfconvert - a|b.g.vcf.gz''
   \<and> count_list ''sentieon pyexec gvcf_combine.py -t 4 in.g.vcf.gz a|b.vcf.gz - | sentieon util vcfconvert - a|b.g.vcf.gz'' (CHR ''|'') = 3"
  by (simp add: cmd_pyexec_gvcf_combine_def dict_item_def str_int_def str_nat.simps
      spec_replace_suffix_def suffix_to_prefix)

text \<open>
  C4, amended. With \<^verbatim>\<open>gvcf_combine_py\<close> and \<^verbatim>\<open>cores\<close> in the dictionary,
  \<open>cmd_pyexec_gvcf_combine\<close> returns the combine invocation, then
  \<^verbatim>\<open> | sentieon util vcfconvert - \<close>, then \<open>out_vcf\<close> with every occurrence of
  \<^verbatim>\<open>.vcf.gz\<close> replaced by \<^verbatim>\<open>.g.vcf.gz\<close>. When \<open>out_vcf\<close> ends in \<^verbatim>\<open>.vcf.gz\<close> and has no
  other occurrence of it, that path is \<open>out_vcf\<close> with its trailing suffix replaced. When
  none of the inserted texts contains \<^verbatim>\<open>|\<close>, the command contains exactly one.
\<close>

theorem gvcf_combine_output:
  assumes "kw ''gvcf_combine_py'' = Some gvcf_combine_py" and "kw ''cores'' = Some cores"
  shows "\<exists>s. cmd_pyexec_gvcf_combine gvcf out_vcf kw = Inr s
           \<and> s = ''sentieon pyexec '' @ py_str gvcf_combine_py @ '' -t '' @ py_str cores @ '' ''
                  @ gvcf @ '' '' @ out_vcf @ '' -''
                  @ '' | sentieon util vcfconvert - ''
                  @ py_replace ''.vcf.gz'' ''.g.vcf.gz'' out_vcf
           \<and> (out_vcf = stem @ ''.vcf.gz'' \<and> \<not> sublist ''.vcf.gz'' stem \<longrightarrow>
                py_replace ''.vcf.gz'' ''.g.vcf.gz'' out_vcf
                  = spec_replace_suffix ''.vcf.gz'' ''.g.vcf.gz'' out_vcf
                \<and> py_replace ''.vcf.gz'' ''.g.vcf.gz'' out_vcf = stem @ ''.g.vcf.gz'')
           \<and> (CHR ''|'' \<notin> set (py_str gvcf_combine_py) \<union> set (py_str cores)
                            \<union> set gvcf \<union> set out_vcf \<longrightarrow>
                count_list s (CHR ''|'') = 1)"
proof -
  let ?conv = "py_replace ''.vcf.gz'' ''.g.vcf.gz'' out_vcf"
  let ?s = "''sentieon pyexec '' @ py_str gvcf_combine_py @ '' -t '' @ py_str cores @ '' ''
                  @ gvcf @ '' '' @ out_vcf @ '' -''
                  @ '' | sentieon util vcfconvert - '' @ ?conv"
  have run: "cmd_pyexec_gvcf_combine gvcf out_vcf kw = Inr ?s"
    using assms by (simp add: cmd_pyexec_gvcf_combine_def dict_item_def)
  have suffix_case: "?conv = spec_replace_suffix ''.vcf.gz'' ''.g.vcf.gz'' out_vcf
                     \<and> ?conv = stem @ ''.g.vcf.gz''"
    if "out_vcf = stem @ ''.vcf.gz'' \<and> \<not> sublist ''.vcf.gz'' stem"
  proof -
    from that have o: "out_vcf = stem @ ''.vcf.gz''" and n: "\<not> sublist ''.vcf.gz'' stem"
      by simp_all
    have "?conv = stem @ ''.g.vcf.gz''"
      unfolding o by (rule py_replace_vcf_suffix [OF n])
    moreover have "spec_replace_suffix ''.vcf.gz'' ''.g.vcf.gz'' out_vcf = stem @ ''.g.vcf.gz''"
      unfolding o spec_replace_suffix_def by (simp add: suffix_def)
    ultimately show ?thesis by simp
  qed
  have pipe_case: "count_list ?s (CHR ''|'') = 1"
    if "CHR ''|'' \<notin> set (py_str gvcf_combine_py) \<union> set (py_str cores) \<union> set gvcf \<union> set out_vcf"
  proof -
    have "set ?conv \<subseteq> set out_vcf \<union> set ''.g.vcf.gz''" by (rule py_replace_chars)
    with that have "CHR ''|'' \<notin> set ?conv" by auto
    then have "count_list ?conv (CHR ''|'') = 0" by (rule count_list_0_iff [THEN iffD2])
    moreover from that have "count_list (py_str gvcf_combine_py) (CHR ''|'') = 0"
      "count_list (py_str cores) (CHR ''|'') = 0" "count_list gvcf (CHR ''|'') = 0"
      "count_list out_vcf (CHR ''|'') = 0"
      by (simp_all add: count_list_0_iff)
    ultimately show ?thesis by simp
  qed
  from run suffix_case pipe_case show ?thesis by blast
qed

theorem gvcf_combine_output_witness:
  "cmd_pyexec_gvcf_combine ''in.g.vcf.gz'' ''out.vcf.gz''
      [''cores'' \<mapsto> PInt 4, ''gvcf_combine_py'' \<mapsto> PStr ''gvcf_combine.py'']
     = Inr ''sentieon pyexec gvcf_combine.py -t 4 in.g.vcf.gz out.vcf.gz - | sentieon util vcfconvert - out.g.vcf.gz''
   \<and> count_list ''sentieon pyexec gvcf_combine.py -t 4 in.g.vcf.gz out.vcf.gz - | sentieon util vcfconvert - out.g.vcf.gz'' (CHR ''|'') = 1"
proof -
  let ?kw = "[''cores'' \<mapsto> PInt 4, ''gvcf_combine_py'' \<mapsto> PStr ''gvcf_combine.py'']"
  have k: "?kw ''gvcf_combine_py'' = Some (PStr ''gvcf_combine.py'')" "?kw ''cores'' = Some (PInt 4)"
    by simp_all
  have stem: "''out.vcf.gz'' = ''out'' @ ''.vcf.gz'' \<and> \<not> sublist ''.vcf.gz'' ''out''"
    by (simp add: sublist_Cons_right)
  have nopipe: "CHR ''|'' \<notin> set (py_str (PStr ''gvcf_combine.py'')) \<union> set (py_str (PInt 4))
                  \<union> set ''in.g.vcf.gz'' \<union> set ''out.vcf.gz''"
    by (simp add: str_int_def str_nat.simps)
  from gvcf_combine_output [OF k, of "''in.g.vcf.gz''" "''out.vcf.gz''" "''out''"] stem nopipe
  obtain s where s: "cmd_pyexec_gvcf_combine ''in.g.vcf.gz'' ''out.vcf.gz'' ?kw = Inr s"
    "s = ''sentieon pyexec '' @ py_str (PStr ''gvcf_combine.py'') @ '' -t '' @ py_str (PInt 4) @ '' ''
                  @ ''in.g.vcf.gz'' @ '' '' @ ''out.vcf.gz'' @ '' -''
                  @ '' | sentieon util vcfconvert - ''
                  @ py_replace ''.vcf.gz'' ''.g.vcf.gz'' ''out.vcf.gz''"
    "py_replace ''.vcf.gz'' ''.g.vcf.gz'' ''out.vcf.gz'' = ''out'' @ ''.g.vcf.gz''"
    "count_list s (CHR ''|'') = 1"
    by blast
  from s(2) have "s = ''sentieon pyexec gvcf_combine.py -t 4 in.g.vcf.gz out.vcf.gz - | sentieon util vcfconvert - out.g.vcf.gz''"
    unfolding s(3) by (simp add: str_int_def str_nat.simps)
  with s(1) s(4) show ?thesis by simp
qed

section \<open>Properties of region subtraction\<close>

lemma translate_newlines_id: "CR \<notin> set s \<Longrightarrow> translate_newlines s = s"
  by (induction s rule: translate_newlines.induct) auto

lemma py_lines_line: "LF \<notin> set l \<Longrightarrow> py_lines (l @ LF # rest) = (l @ [LF]) # py_lines rest"
  by (induction l) auto

lemma split_chr_field:
  "sep \<notin> set a \<Longrightarrow> split_chr sep (a @ sep # b) = a # split_chr sep b"
  by (induction a) auto

lemma split_chr_first:
  "sep \<notin> set a \<Longrightarrow> b = [] \<or> hd b = sep \<Longrightarrow> \<exists>fs. split_chr sep (a @ b) = a # fs"
proof (cases b)
  case Nil
  assume "sep \<notin> set a"
  then have "split_chr sep a = [a]" by (induction a) auto
  with Nil show ?thesis by simp
next
  case (Cons c cs)
  assume "sep \<notin> set a" "b = [] \<or> hd b = sep"
  with Cons have "split_chr sep (a @ b) = a # split_chr sep cs"
    by (simp add: split_chr_field)
  then show ?thesis by blast
qed

lemma rstrip_keep:
  assumes "xs \<noteq> []" and "\<not> P (last xs)"
  shows "rev (dropWhile P (rev (xs @ ys))) = xs @ rev (dropWhile P (rev ys))"
proof -
  from assms have keep: "dropWhile P (rev xs) = rev xs"
    by (cases xs rule: rev_cases) simp_all
  show ?thesis
  proof (cases "\<forall>y\<in>set (rev ys). P y")
    case True
    then have "dropWhile P (rev ys) = []" by simp
    with True keep show ?thesis by (simp add: dropWhile_append)
  next
    case False
    then show ?thesis by (auto simp add: dropWhile_append)
  qed
qed

lemma rstrip_head:
  "rev (dropWhile P (rev ys)) = [] \<or> hd (rev (dropWhile P (rev ys))) = hd ys"
proof -
  have "ys = rev (dropWhile P (rev ys)) @ rev (takeWhile P (rev ys))"
    by (metis rev_append rev_rev_ident takeWhile_dropWhile_id)
  then show ?thesis by (metis hd_append2)
qed


lemma is_space_simps: "is_space TAB" "is_space LF" "is_space CR"
  by (simp_all add: is_space_def)

lemma digit_not_space: "c \<in> set ''0123456789'' \<Longrightarrow> \<not> is_space c"
  by (auto simp add: is_space_def)

lemma digit_not_break: "c \<in> set ''0123456789'' \<Longrightarrow> c \<noteq> TAB \<and> c \<noteq> LF \<and> c \<noteq> CR"
  by auto

lemma fai_row_chars:
  assumes "fai_row_ok (contig, len, cols)"
  shows "TAB \<notin> set contig" "LF \<notin> set contig" "CR \<notin> set contig"
    "TAB \<notin> set len" "LF \<notin> set len" "CR \<notin> set len"
    "LF \<notin> set (concat (map (\<lambda>col. TAB # col) cols))"
    "CR \<notin> set (concat (map (\<lambda>col. TAB # col) cols))"
proof -
  from assms have c: "\<forall>x\<in>set contig. \<not> is_space x"
    and l: "\<forall>x\<in>set len. x \<in> set ''0123456789''"
    and m: "\<forall>col\<in>set cols. \<forall>x\<in>set col. x \<noteq> TAB \<and> x \<noteq> LF \<and> x \<noteq> CR"
    by (simp_all add: list_all_iff)
  from c is_space_simps show "TAB \<notin> set contig" "LF \<notin> set contig" "CR \<notin> set contig"
    by blast+
  from l digit_not_break show "TAB \<notin> set len" "LF \<notin> set len" "CR \<notin> set len"
    by blast+
  from m show "LF \<notin> set (concat (map (\<lambda>col. TAB # col) cols))"
    "CR \<notin> set (concat (map (\<lambda>col. TAB # col) cols))"
    by auto
qed

lemma fai_tokens:
  assumes "fai_row_ok (contig, len, cols)"
  shows "\<exists>fs. split_chr TAB (strip (fai_line (contig, len, cols))) = contig # len # fs"
proof -
  let ?xs = "contig @ TAB # len"
  let ?rest = "concat (map (\<lambda>col. TAB # col) cols) @ [LF]"
  let ?R = "rev (dropWhile is_space (rev ?rest))"
  from assms have ne: "contig \<noteq> []" "len \<noteq> []"
    and c: "\<forall>x\<in>set contig. \<not> is_space x"
    and l: "\<forall>x\<in>set len. x \<in> set ''0123456789''"
    by (simp_all add: list_all_iff)
  have line: "fai_line (contig, len, cols) = ?xs @ ?rest" by simp
  from ne(2) l have last_ok: "\<not> is_space (last ?xs)"
    using digit_not_space [of "last len"] by simp
  have "?xs \<noteq> []" by simp
  from rstrip_keep [of ?xs is_space ?rest, OF this last_ok]
  have right: "rev (dropWhile is_space (rev (?xs @ ?rest))) = ?xs @ ?R" .
  from ne(1) c have "\<not> is_space (hd contig)" by simp
  with ne(1) have left: "dropWhile is_space (?xs @ ?R) = ?xs @ ?R"
    by (cases contig) simp_all
  have stripped: "strip (fai_line (contig, len, cols)) = contig @ TAB # (len @ ?R)"
    unfolding strip_def line right left by simp
  have R: "?R = [] \<or> hd ?R = TAB"
  proof (cases cols)
    case Nil
    then show ?thesis by (simp add: is_space_simps)
  next
    case (Cons col cs)
    then have "hd ?rest = TAB" by simp
    with rstrip_head [of is_space ?rest] show ?thesis by metis
  qed
  from fai_row_chars(4) [OF assms] R obtain fs where "split_chr TAB (len @ ?R) = len # fs"
    using split_chr_first [of TAB len ?R] by blast
  with fai_row_chars(1) [OF assms] show ?thesis
    unfolding stripped by (simp add: split_chr_field)
qed

lemma write_bed_rows_ok:
  "list_all fai_row_ok rows \<Longrightarrow>
   write_bed_rows (map fai_line rows) written = (None, written @ concat (map bed_line rows))"
proof (induction rows arbitrary: written)
  case Nil
  show ?case by simp
next
  case (Cons row rows)
  obtain contig len cols where row: "row = (contig, len, cols)" by (cases row)
  from Cons.prems row have ok: "fai_row_ok (contig, len, cols)" and rest: "list_all fai_row_ok rows"
    by simp_all
  from fai_tokens [OF ok] obtain fs where
    toks: "split_chr TAB (strip (fai_line (contig, len, cols))) = contig # len # fs" by blast
  have "write_bed_rows (map fai_line (row # rows)) written =
          write_bed_rows (map fai_line rows) (written @ bed_line row)"
    unfolding row using toks by (simp add: Let_def del: fai_line.simps)
  with Cons.IH [OF rest] show ?case by simp
qed

lemma py_lines_fai:
  "list_all fai_row_ok rows \<Longrightarrow> py_lines (concat (map fai_line rows)) = map fai_line rows"
proof (induction rows)
  case Nil
  show ?case by simp
next
  case (Cons row rows)
  obtain contig len cols where row: "row = (contig, len, cols)" by (cases row)
  from Cons.prems row have ok: "fai_row_ok (contig, len, cols)" and rest: "list_all fai_row_ok rows"
    by simp_all
  let ?l = "contig @ TAB # len @ concat (map (\<lambda>col. TAB # col) cols)"
  from fai_row_chars [OF ok] have "LF \<notin> set ?l" by simp
  from py_lines_line [OF this, of "concat (map fai_line rows)"] Cons.IH [OF rest]
  show ?case unfolding row by simp
qed

lemma py_lines_bed:
  "list_all fai_row_ok rows \<Longrightarrow> py_lines (concat (map bed_line rows)) = map bed_line rows"
proof (induction rows)
  case Nil
  show ?case by simp
next
  case (Cons row rows)
  obtain contig len cols where row: "row = (contig, len, cols)" by (cases row)
  from Cons.prems row have ok: "fai_row_ok (contig, len, cols)" and rest: "list_all fai_row_ok rows"
    by simp_all
  let ?l = "contig @ TAB # ''0'' @ TAB # len"
  from fai_row_chars [OF ok] have "LF \<notin> set ?l" by simp
  from py_lines_line [OF this, of "concat (map bed_line rows)"] Cons.IH [OF rest]
  show ?case unfolding row by simp
qed

lemma fai_no_cr: "list_all fai_row_ok rows \<Longrightarrow> CR \<notin> set (concat (map fai_line rows))"
proof (induction rows)
  case Nil
  show ?case by simp
next
  case (Cons row rows)
  obtain contig len cols where row: "row = (contig, len, cols)" by (cases row)
  from Cons.prems row have ok: "fai_row_ok (contig, len, cols)" and rest: "list_all fai_row_ok rows"
    by simp_all
  from fai_row_chars [OF ok] Cons.IH [OF rest] show ?case unfolding row by simp
qed


lemma bed_not_fai: "a @ ''_reference.bed'' \<noteq> r @ ''.fai''"
proof
  assume "a @ ''_reference.bed'' = r @ ''.fai''"
  then have "last (a @ ''_reference.bed'') = last (r @ ''.fai'')" by (rule arg_cong)
  then show False by simp
qed

lemma bedtools_run:
  assumes "kw ''tmp_base'' = Some tmp_base"
    and "kw ''reference'' = Some reference" and "name reference = PStr ref"
    and "writable fs (py_str tmp_base @ ''_reference.bed'')"
    and "files fs (ref @ ''.fai'') = Some (concat (map fai_line rows))"
    and "list_all fai_row_ok rows"
  shows "cmd_bedtools_subtract PNone phased_bed unphased_bed kw fs =
           (Inr (''bedtools subtract -a '' @ (py_str tmp_base @ ''_reference.bed'')
                   @ '' -b '' @ phased_bed @ '' > '' @ unphased_bed),
            fs\<lparr>files := (files fs)(py_str tmp_base @ ''_reference.bed''
                                     \<mapsto> concat (map bed_line rows))\<rparr>)"
proof -
  let ?out = "py_str tmp_base @ ''_reference.bed''"
  let ?idx = "concat (map fai_line rows)"
  have lines: "py_lines (translate_newlines ?idx) = map fai_line rows"
    using translate_newlines_id [OF fai_no_cr [OF assms(6)]] py_lines_fai [OF assms(6)]
    by simp
  have loop: "write_bed_rows (map fai_line rows) [] = (None, concat (map bed_line rows))"
    using write_bed_rows_ok [OF assms(6), of "[]"] by simp
  have other: "?out \<noteq> ref @ ''.fai''" by (rule bed_not_fai)
  then have found: "((files fs)(?out \<mapsto> [])) (ref @ ''.fai'') = Some ?idx"
    using assms(5) by (simp del: append_assoc)
  show ?thesis
    unfolding cmd_bedtools_subtract_def
    using assms(1-4) found lines loop
    by (simp add: dict_item_def Let_def del: fun_upd_apply fai_line.simps bed_line.simps)
qed

text \<open>
  C6. Without a region file, and with an index \<^verbatim>\<open><resolved reference>.fai\<close> of well-formed
  rows, \<open>cmd_bedtools_subtract\<close> writes the file \<^verbatim>\<open><tmp_base>_reference.bed\<close> (the
  temp-directory base with this suffix appended) before it returns. The file has one line
  \<^verbatim>\<open><contig name>\t0\t<contig length>\n\<close> for each row of the index, in the order of the
  index, taken from columns 1 and 2 of the row, so it has as many lines as the index has
  contigs. The command returned names this file after \<^verbatim>\<open>-a\<close>. A second run on the
  resulting file system returns the same command and leaves every file as it is: the
  content is reproduced byte for byte.
\<close>

theorem synthesized_region_file:
  assumes "kw ''tmp_base'' = Some tmp_base"
    and "kw ''reference'' = Some reference" and "name reference = PStr ref"
    and "writable fs (py_str tmp_base @ ''_reference.bed'')"
    and "files fs (ref @ ''.fai'') = Some (concat (map fai_line rows))"
    and "list_all fai_row_ok rows"
  shows "let out = py_str tmp_base @ ''_reference.bed'';
             fs' = fs\<lparr>files := (files fs)(out \<mapsto> concat (map bed_line rows))\<rparr>;
             cmd = ''bedtools subtract -a '' @ out @ '' -b '' @ phased_bed
                     @ '' > '' @ unphased_bed
         in cmd_bedtools_subtract PNone phased_bed unphased_bed kw fs = (Inr cmd, fs')
            \<and> py_lines (concat (map bed_line rows)) = map bed_line rows
            \<and> length (py_lines (concat (map bed_line rows))) = length rows
            \<and> cmd_bedtools_subtract PNone phased_bed unphased_bed kw fs' = (Inr cmd, fs')"
proof -
  let ?out = "py_str tmp_base @ ''_reference.bed''"
  let ?fs' = "fs\<lparr>files := (files fs)(?out \<mapsto> concat (map bed_line rows))\<rparr>"
  have first: "cmd_bedtools_subtract PNone phased_bed unphased_bed kw fs =
           (Inr (''bedtools subtract -a '' @ ?out @ '' -b '' @ phased_bed @ '' > '' @ unphased_bed),
            ?fs')"
    by (rule bedtools_run [OF assms])
  have w': "writable ?fs' ?out" using assms(4) by simp
  have "?out \<noteq> ref @ ''.fai''" by (rule bed_not_fai)
  then have idx': "files ?fs' (ref @ ''.fai'') = Some (concat (map fai_line rows))"
    using assms(5) by (simp del: append_assoc)
  have same: "?fs'\<lparr>files := (files ?fs')(?out \<mapsto> concat (map bed_line rows))\<rparr> = ?fs'"
    by simp
  have again: "cmd_bedtools_subtract PNone phased_bed unphased_bed kw ?fs' =
           (Inr (''bedtools subtract -a '' @ ?out @ '' -b '' @ phased_bed @ '' > '' @ unphased_bed),
            ?fs')"
    using bedtools_run [OF assms(1-3) w' idx' assms(6), of phased_bed unphased_bed]
    unfolding same .
  have rows: "py_lines (concat (map bed_line rows)) = map bed_line rows"
    by (rule py_lines_bed [OF assms(6)])
  from first again rows show ?thesis by (simp add: Let_def)
qed


theorem synthesized_region_file_witness:
  "cmd_bedtools_subtract PNone ''phased.bed'' ''unphased.bed''
     [''tmp_base'' \<mapsto> PStr ''/tmp/work'',
      ''reference'' \<mapsto> PObj (Some (PStr ''ref.fasta'')) ''<open file>'']
     \<lparr>files = [''ref.fasta.fai'' \<mapsto>
                 ''chr1'' @ [TAB] @ ''1000'' @ [TAB] @ ''6'' @ [TAB] @ ''60'' @ [TAB] @ ''61'' @ [LF]
                 @ ''chrM'' @ [TAB] @ ''500'' @ [TAB] @ ''1030'' @ [TAB] @ ''60'' @ [TAB] @ ''61''
                 @ [LF]],
      writable = (\<lambda>p. True)\<rparr>
   = (Inr ''bedtools subtract -a /tmp/work_reference.bed -b phased.bed > unphased.bed'',
      \<lparr>files = [''ref.fasta.fai'' \<mapsto>
                 ''chr1'' @ [TAB] @ ''1000'' @ [TAB] @ ''6'' @ [TAB] @ ''60'' @ [TAB] @ ''61'' @ [LF]
                 @ ''chrM'' @ [TAB] @ ''500'' @ [TAB] @ ''1030'' @ [TAB] @ ''60'' @ [TAB] @ ''61''
                 @ [LF],
                ''/tmp/work_reference.bed'' \<mapsto>
                 ''chr1'' @ [TAB] @ ''0'' @ [TAB] @ ''1000'' @ [LF]
                 @ ''chrM'' @ [TAB] @ ''0'' @ [TAB] @ ''500'' @ [LF]],
      writable = (\<lambda>p. True)\<rparr>)"
proof -
  let ?kw = "[''tmp_base'' \<mapsto> PStr ''/tmp/work'',
              ''reference'' \<mapsto> PObj (Some (PStr ''ref.fasta'')) ''<open file>'']"
  let ?rows = "[(''chr1'', ''1000'', [''6'', ''60'', ''61'']),
                (''chrM'', ''500'', [''1030'', ''60'', ''61''])]"
  let ?fs = "\<lparr>files = [''ref.fasta.fai'' \<mapsto> concat (map fai_line ?rows)],
              writable = (\<lambda>p. True)\<rparr>"
  have k: "?kw ''tmp_base'' = Some (PStr ''/tmp/work'')"
    "?kw ''reference'' = Some (PObj (Some (PStr ''ref.fasta'')) ''<open file>'')"
    by simp_all
  have n: "name (PObj (Some (PStr ''ref.fasta'')) ''<open file>'') = PStr ''ref.fasta''"
    by simp
  have w: "writable ?fs (py_str (PStr ''/tmp/work'') @ ''_reference.bed'')" by simp
  have i: "files ?fs (''ref.fasta'' @ ''.fai'') = Some (concat (map fai_line ?rows))" by simp
  have ok: "list_all fai_row_ok ?rows" by (simp add: is_space_def)
  have run: "cmd_bedtools_subtract PNone ''phased.bed'' ''unphased.bed'' ?kw ?fs =
      (Inr (''bedtools subtract -a '' @ (py_str (PStr ''/tmp/work'') @ ''_reference.bed'')
              @ '' -b '' @ ''phased.bed'' @ '' > '' @ ''unphased.bed''),
       ?fs\<lparr>files := (files ?fs)(py_str (PStr ''/tmp/work'') @ ''_reference.bed''
                                  \<mapsto> concat (map bed_line ?rows))\<rparr>)"
    using synthesized_region_file [OF k n w i ok, of "''phased.bed''" "''unphased.bed''"]
    unfolding Let_def by (rule conjunct1)
  have idx: "''chr1'' @ [TAB] @ ''1000'' @ [TAB] @ ''6'' @ [TAB] @ ''60'' @ [TAB] @ ''61'' @ [LF]
                 @ ''chrM'' @ [TAB] @ ''500'' @ [TAB] @ ''1030'' @ [TAB] @ ''60'' @ [TAB] @ ''61''
                 @ [LF] = concat (map fai_line ?rows)"
    by simp
  show ?thesis unfolding idx run by simp
qed

end
